theory Spec2Isabelle
  imports Main "HOL-Library.AList"
begin

section \<open>Strings and values of the script\<close>

text \<open>
  The development embeds \<^verbatim>\<open>scripts/prebuild_fetch_project_meta.py\<close>.
  A Python \<^verbatim>\<open>str\<close> is a \<^typ>\<open>string\<close>; a character stands for a code point
  below 256, and the string methods below are Python's on that range.
  \<^verbatim>\<open>str.isspace\<close> holds there for the code points 9 to 13, 28 to 31, 32, 133 and 160.
\<close>

definition is_space :: "char \<Rightarrow> bool" where
  "is_space c = (c \<in> set [CHR 0x09, CHR 0x0A, CHR 0x0B, CHR 0x0C, CHR 0x0D,
      CHR 0x1C, CHR 0x1D, CHR 0x1E, CHR 0x1F, CHR 0x20, CHR 0x85, CHR 0xA0])"

definition lstrip :: "string \<Rightarrow> string" where
  "lstrip s = dropWhile is_space s"

definition rstrip :: "string \<Rightarrow> string" where
  "rstrip s = rev (dropWhile is_space (rev s))"

definition strip :: "string \<Rightarrow> string" where
  "strip s = rstrip (lstrip s)"

text \<open>
  \<^verbatim>\<open>str.lower\<close>: the letters A to Z and the Latin-1 capitals (code points 192 to 222,
  without 215) move up by 32; every other character stays.
\<close>

definition upper_chars :: string where
  "upper_chars = ''ABCDEFGHIJKLMNOPQRSTUVWXYZ'' @
     [CHR 0xC0, CHR 0xC1, CHR 0xC2, CHR 0xC3, CHR 0xC4, CHR 0xC5, CHR 0xC6, CHR 0xC7, CHR
      0xC8, CHR 0xC9, CHR 0xCA, CHR 0xCB, CHR 0xCC, CHR 0xCD, CHR 0xCE, CHR 0xCF, CHR
      0xD0, CHR 0xD1, CHR 0xD2, CHR 0xD3, CHR 0xD4, CHR 0xD5, CHR 0xD6, CHR 0xD8, CHR
      0xD9, CHR 0xDA, CHR 0xDB, CHR 0xDC, CHR 0xDD, CHR 0xDE]"

definition lower_chars :: string where
  "lower_chars = ''abcdefghijklmnopqrstuvwxyz'' @
     [CHR 0xE0, CHR 0xE1, CHR 0xE2, CHR 0xE3, CHR 0xE4, CHR 0xE5, CHR 0xE6, CHR 0xE7, CHR
      0xE8, CHR 0xE9, CHR 0xEA, CHR 0xEB, CHR 0xEC, CHR 0xED, CHR 0xEE, CHR 0xEF, CHR
      0xF0, CHR 0xF1, CHR 0xF2, CHR 0xF3, CHR 0xF4, CHR 0xF5, CHR 0xF6, CHR 0xF8, CHR
      0xF9, CHR 0xFA, CHR 0xFB, CHR 0xFC, CHR 0xFD, CHR 0xFE]"

definition lower_char :: "char \<Rightarrow> char" where
  "lower_char c = (case map_of (zip upper_chars lower_chars) c of None \<Rightarrow> c | Some l \<Rightarrow> l)"

definition lower :: "string \<Rightarrow> string" where
  "lower s = map lower_char s"

text \<open>\<^verbatim>\<open>s.startswith(p)\<close> and \<^verbatim>\<open>s.endswith(p)\<close>.\<close>

definition startswith :: "string \<Rightarrow> string \<Rightarrow> bool" where
  "startswith s p = (take (length p) s = p)"

definition endswith :: "string \<Rightarrow> string \<Rightarrow> bool" where
  "endswith s p = startswith (rev s) (rev p)"

text \<open>
  \<^verbatim>\<open>key, value = line.split(":", 1)\<close>, used only where the line contains a colon:
  the text before the first colon and the text after it.
\<close>

definition split_colon :: "string \<Rightarrow> string \<times> string" where
  "split_colon line =
     (takeWhile (\<lambda>c. c \<noteq> CHR '':'') line, drop 1 (dropWhile (\<lambda>c. c \<noteq> CHR '':'') line))"

definition dquote :: string where
  "dquote = [CHR 0x22]"

definition squote :: string where
  "squote = [CHR 0x27]"

text \<open>
  \<^verbatim>\<open>_strip_quotes\<close>. The slice \<^verbatim>\<open>value[1:-1]\<close> of a string that starts with a quote
  drops its first and its last character, and is empty when the string is the quote alone.
\<close>

definition strip_quotes :: "string \<Rightarrow> string" where
  "strip_quotes value0 =
     (let v = strip value0 in
      if startswith v dquote \<and> endswith v dquote then butlast (tl v)
      else if startswith v squote \<and> endswith v squote then butlast (tl v)
      else v)"

text \<open>
  The values a record holds: a scalar, the \<^verbatim>\<open>stack\<close> list, and (in the output) the card,
  itself a dictionary of strings. A dictionary is an association list in insertion order;
  \<^verbatim>\<open>d[k] = v\<close> is \<^const>\<open>AList.update\<close>, which replaces in place or appends.
\<close>

type_synonym card = "(string \<times> string) list"

datatype pyval = Str string | StrList "string list" | Card card

type_synonym project = "(string \<times> pyval) list"

text \<open>Exceptions: the class and the text \<^verbatim>\<open>str(exc)\<close>.\<close>

datatype exc_class =
  AttributeError | ValueError | LookupError | AssertionError
  | ConnectionResetError | URLError | HTTPError | TimeoutError

datatype py_exc = Exc exc_class string

section \<open>The list-format reader: \<^verbatim>\<open>parse_projects_yaml\<close>\<close>

record pstate =
  items :: "project list"
  current :: "project option"
  in_stack :: bool

definition init_pstate :: pstate where
  "init_pstate = \<lparr>items = [], current = None, in_stack = False\<rparr>"

text \<open>
  \<^verbatim>\<open>if current: items.append(current)\<close>: a dictionary is true when it has a key,
  so neither \<^verbatim>\<open>None\<close> nor the empty record is appended.
\<close>

fun flush :: "project list \<Rightarrow> project option \<Rightarrow> project list" where
  "flush its None = its"
| "flush its (Some c) = (if c \<noteq> [] then its @ [c] else its)"

text \<open>\<^verbatim>\<open>current[key.strip()] = _strip_quotes(value)\<close> after the split at the colon.\<close>

definition set_scalar :: "string \<Rightarrow> project \<Rightarrow> project" where
  "set_scalar line cur =
     (let (key, value) = split_colon line
      in AList.update (strip key) (Str (strip_quotes value)) cur)"

text \<open>
  One iteration of the loop over the lines. The only statement that can raise is
  \<^verbatim>\<open>current["stack"].append(stack_item)\<close>, when the value under \<^verbatim>\<open>stack\<close> is not a list.
\<close>

definition parse_line :: "pstate \<Rightarrow> string \<Rightarrow> py_exc + pstate" where
  "parse_line st raw_line =
     (let line = rstrip raw_line in
      if line = [] \<or> startswith (lstrip line) ''#'' then Inr st
      else if startswith line ''- '' then
        (let line2 = drop 2 line
         in Inr \<lparr>items = flush (items st) (current st),
                 current = Some (if CHR '':'' \<in> set line2 then set_scalar line2 [] else []),
                 in_stack = False\<rparr>)
      else
        (case current st of
           None \<Rightarrow> Inr st
         | Some cur \<Rightarrow>
             if startswith line ''  stack:'' then
               Inr (st\<lparr>current := Some (AList.update ''stack'' (StrList []) cur),
                       in_stack := True\<rparr>)
             else if in_stack st \<and> startswith line ''    - '' then
               (let stack_item = strip_quotes (drop 6 line) in
                if stack_item \<noteq> [] then
                  (case map_of cur ''stack'' of
                     None \<Rightarrow>
                       Inr (st\<lparr>current := Some (AList.update ''stack'' (StrList [stack_item]) cur)\<rparr>)
                   | Some (StrList xs) \<Rightarrow>
                       Inr (st\<lparr>current :=
                              Some (AList.update ''stack'' (StrList (xs @ [stack_item])) cur)\<rparr>)
                   | Some _ \<Rightarrow>
                       Inl (Exc AttributeError
                         (squote @ ''str'' @ squote @ '' object has no attribute '' @
                          squote @ ''append'' @ squote)))
                else Inr st)
             else if startswith line ''  '' \<and> CHR '':'' \<in> set line then
               Inr (st\<lparr>current := Some (set_scalar line cur), in_stack := False\<rparr>)
             else Inr st))"

fun run_lines :: "pstate \<Rightarrow> string list \<Rightarrow> py_exc + pstate" where
  "run_lines st [] = Inr st"
| "run_lines st (l # ls) =
     (case parse_line st l of Inl e \<Rightarrow> Inl e | Inr st' \<Rightarrow> run_lines st' ls)"

text \<open>
  \<^verbatim>\<open>parse_projects_yaml\<close>, on the lines of the file as \<^verbatim>\<open>splitlines\<close> gives them:
  the loop, then the flush of the record that is still open.
\<close>

definition parse_projects_yaml :: "string list \<Rightarrow> py_exc + project list" where
  "parse_projects_yaml lines =
     (case run_lines init_pstate lines of
        Inl e \<Rightarrow> Inl e
      | Inr st \<Rightarrow> Inr (flush (items st) (current st)))"


text \<open>
  The lines the loop passes over (blank lines and comments), the lines that begin a
  record, and the document cut at them: the lines before the first
  record start, then one chunk per record start, holding that line and the lines up to
  the next record start.
\<close>

definition is_skipped :: "string \<Rightarrow> bool" where
  "is_skipped raw_line =
     (rstrip raw_line = [] \<or> startswith (lstrip (rstrip raw_line)) ''#'')"

definition is_record_start :: "string \<Rightarrow> bool" where
  "is_record_start raw_line = startswith (rstrip raw_line) ''- ''"

fun split_records :: "string list \<Rightarrow> string list \<times> string list list" where
  "split_records [] = ([], [])"
| "split_records (l # ls) =
     (case split_records ls of
        (pre, cs) \<Rightarrow> if is_record_start l then ([], (l # pre) # cs) else (l # pre, cs))"

definition record_chunks :: "string list \<Rightarrow> string list list" where
  "record_chunks ls = snd (split_records ls)"

text \<open>The record the loop builds from one chunk alone: what is open when the chunk ends.\<close>

definition open_after :: "pstate \<Rightarrow> string list \<Rightarrow> project option" where
  "open_after st ls = (case run_lines st ls of Inl e \<Rightarrow> None | Inr s \<Rightarrow> current s)"

definition record_of_chunk :: "string list \<Rightarrow> project" where
  "record_of_chunk chunk = (case open_after init_pstate chunk of None \<Rightarrow> [] | Some r \<Rightarrow> r)"

text \<open>
  While \<^verbatim>\<open>in_stack\<close> is set, the open record holds a list under \<^verbatim>\<open>stack\<close>:
  the invariant that keeps \<^verbatim>\<open>append\<close> from raising.
\<close>

definition stack_ok :: "pstate \<Rightarrow> bool" where
  "stack_ok st =
     (if in_stack st then
        (case current st of
           None \<Rightarrow> False
         | Some cur \<Rightarrow> (case map_of cur ''stack'' of Some (StrList xs) \<Rightarrow> True | _ \<Rightarrow> False))
      else True)"

text \<open>The open record has at least one key.\<close>

definition has_fields :: "pstate \<Rightarrow> bool" where
  "has_fields st = (case current st of None \<Rightarrow> False | Some cur \<Rightarrow> cur \<noteq> [])"

text \<open>The value a stack item line carries: \<^verbatim>\<open>_strip_quotes(line[6:])\<close>.\<close>

definition item_value :: "string \<Rightarrow> string" where
  "item_value raw_line = strip_quotes (drop 6 (rstrip raw_line))"

text \<open>
  A line after a stack block that leaves the block alone: it does not start a record, does
  not begin with \<^verbatim>\<open>  stack:\<close> or with four spaces, dash, space, and, if it sets a scalar
  field, the key is not \<^verbatim>\<open>stack\<close>.
\<close>

definition keeps_stack :: "string \<Rightarrow> bool" where
  "keeps_stack raw_line =
     (\<not> is_record_start raw_line
      \<and> \<not> startswith (rstrip raw_line) ''  stack:''
      \<and> \<not> startswith (rstrip raw_line) ''    - ''
      \<and> (is_skipped raw_line
          \<or> \<not> (startswith (rstrip raw_line) ''  '' \<and> CHR '':'' \<in> set (rstrip raw_line))
          \<or> strip (fst (split_colon (rstrip raw_line))) \<noteq> ''stack''))"

definition leading_spaces :: "string \<Rightarrow> nat" where
  "leading_spaces s = length (takeWhile (\<lambda>c. c = CHR '' '') s)"

section \<open>The HTML metadata extractor: \<^verbatim>\<open>MetaParser\<close>\<close>

text \<open>
  The library's tokenizer calls the handlers with start tags, end tags and text. An
  attribute is a name and a value, \<^verbatim>\<open>None\<close> for an attribute written without one.
\<close>

type_synonym attrs = "(string \<times> string option) list"

datatype html_event = StartTag string attrs | EndTag string | Data string

record meta_parser =
  meta :: "string \<rightharpoonup> string"
  title :: string
  in_title :: bool

definition new_parser :: meta_parser where
  "new_parser = \<lparr>meta = Map.empty, title = [], in_title = False\<rparr>"

text \<open>\<^verbatim>\<open>{k.lower(): v for k, v in attrs if k and v}\<close>: a later attribute replaces an earlier one.\<close>

definition attrs_dict :: "attrs \<Rightarrow> (string \<rightharpoonup> string)" where
  "attrs_dict as =
     foldl (\<lambda>d (k, v).
        case v of
          None \<Rightarrow> d
        | Some s \<Rightarrow> if k \<noteq> [] \<and> s \<noteq> [] then d(lower k \<mapsto> s) else d) Map.empty as"

text \<open>Truth of an optional string, and Python's \<^verbatim>\<open>a or b\<close> on such values.\<close>

fun truthy :: "string option \<Rightarrow> bool" where
  "truthy None = False"
| "truthy (Some s) = (s \<noteq> [])"

definition py_or :: "string option \<Rightarrow> string option \<Rightarrow> string option" where
  "py_or a b = (if truthy a then a else b)"

text \<open>\<^verbatim>\<open>a or d\<close> where \<^verbatim>\<open>d\<close> is a string: the result is a string.\<close>

fun or_str :: "string option \<Rightarrow> string \<Rightarrow> string" where
  "or_str None d = d"
| "or_str (Some s) d = (if s \<noteq> [] then s else d)"

text \<open>
  Precedence in the words of the specification: the first candidate that is present and
  not empty, else the default.
\<close>

definition first_nonempty :: "string option list \<Rightarrow> string \<Rightarrow> string" where
  "first_nonempty cands d = (case filter truthy cands of Some s # rest \<Rightarrow> s | _ \<Rightarrow> d)"

definition handle_starttag :: "meta_parser \<Rightarrow> string \<Rightarrow> attrs \<Rightarrow> meta_parser" where
  "handle_starttag p tag as =
     (if lower tag = ''meta'' then
        (let attrs_d = attrs_dict as;
             key = py_or (attrs_d ''property'') (attrs_d ''name'');
             content = attrs_d ''content''
         in case (key, content) of
              (Some k, Some c) \<Rightarrow>
                if k \<noteq> [] \<and> c \<noteq> [] then p\<lparr>meta := (meta p)(lower (strip k) \<mapsto> strip c)\<rparr> else p
            | _ \<Rightarrow> p)
      else if lower tag = ''title'' then p\<lparr>in_title := True\<rparr>
      else p)"

definition handle_endtag :: "meta_parser \<Rightarrow> string \<Rightarrow> meta_parser" where
  "handle_endtag p tag = (if lower tag = ''title'' then p\<lparr>in_title := False\<rparr> else p)"

definition handle_data :: "meta_parser \<Rightarrow> string \<Rightarrow> meta_parser" where
  "handle_data p d = (if in_title p then p\<lparr>title := title p @ d\<rparr> else p)"

fun dispatch :: "meta_parser \<Rightarrow> html_event \<Rightarrow> meta_parser" where
  "dispatch p (StartTag tag as) = handle_starttag p tag as"
| "dispatch p (EndTag tag) = handle_endtag p tag"
| "dispatch p (Data d) = handle_data p d"

definition feed :: "meta_parser \<Rightarrow> html_event list \<Rightarrow> meta_parser" where
  "feed p evs = foldl dispatch p evs"

text \<open>
  The attribute a name selects, in the words of the specification: the value of the last
  attribute of that (lower-cased) name among those with a non-empty name and value.
\<close>

definition usable_attr :: "string \<Rightarrow> string \<times> string option \<Rightarrow> bool" where
  "usable_attr n a = (fst a \<noteq> [] \<and> truthy (snd a) \<and> lower (fst a) = n)"

definition last_attr :: "string \<Rightarrow> attrs \<Rightarrow> string option" where
  "last_attr n as =
     (let xs = filter (usable_attr n) as in if xs = [] then None else snd (last xs))"

section \<open>The library's URL resolution: \<^verbatim>\<open>urljoin\<close>\<close>

text \<open>
  \<^verbatim>\<open>resolve_url\<close> calls \<^verbatim>\<open>urllib.parse.urljoin\<close>, which is not part of the script.
  The definitions of this section follow the library's module \<^verbatim>\<open>urllib/parse.py\<close>
  (CPython 3.11) function by function: \<^verbatim>\<open>urlsplit\<close>, \<^verbatim>\<open>urlparse\<close>,
  \<^verbatim>\<open>urlunsplit\<close>, \<^verbatim>\<open>urlunparse\<close>, \<^verbatim>\<open>urljoin\<close>, on strings (never bytes) and with
  fragments allowed, as \<^verbatim>\<open>resolve_url\<close> calls them. Two checks of \<^verbatim>\<open>urlsplit\<close> reach
  into other modules and are parameters: the validation of a host in square brackets
  (\<^verbatim>\<open>ipaddress\<close>) and the check of a network location with non-ASCII characters
  (\<^verbatim>\<open>unicodedata\<close>); each returns the exception it raises, if any.
\<close>

record url_lib =
  check_bracketed_host :: "string \<Rightarrow> py_exc option"
  check_nonascii_netloc :: "string \<Rightarrow> py_exc option"

definition uses_relative :: "string list" where
  "uses_relative = ['''', ''ftp'', ''http'', ''gopher'', ''nntp'', ''imap'',
     ''wais'', ''file'', ''https'', ''shttp'', ''mms'',
     ''prospero'', ''rtsp'', ''rtsps'', ''rtspu'', ''sftp'',
     ''svn'', ''svn+ssh'', ''ws'', ''wss'']"

definition uses_netloc :: "string list" where
  "uses_netloc = ['''', ''ftp'', ''http'', ''gopher'', ''nntp'', ''telnet'',
     ''imap'', ''wais'', ''file'', ''mms'', ''https'', ''shttp'',
     ''snews'', ''prospero'', ''rtsp'', ''rtsps'', ''rtspu'', ''rsync'',
     ''svn'', ''svn+ssh'', ''sftp'', ''nfs'', ''git'', ''git+ssh'',
     ''ws'', ''wss'']"

definition uses_params :: "string list" where
  "uses_params = ['''', ''ftp'', ''hdl'', ''prospero'', ''http'', ''imap'',
     ''https'', ''shttp'', ''rtsp'', ''rtsps'', ''rtspu'', ''sip'',
     ''sips'', ''mms'', ''sftp'', ''tel'']"

definition ascii_letters :: string where
  "ascii_letters = ''abcdefghijklmnopqrstuvwxyzABCDEFGHIJKLMNOPQRSTUVWXYZ''"

definition scheme_chars :: string where
  "scheme_chars = ascii_letters @ ''0123456789+-.''"

text \<open>The code points 0 to 32, stripped from the ends, and the three removed anywhere.\<close>

definition c0_control_or_space :: string where
  "c0_control_or_space =
     [CHR 0x00, CHR 0x01, CHR 0x02, CHR 0x03, CHR 0x04, CHR 0x05, CHR 0x06, CHR 0x07,
      CHR 0x08, CHR 0x09, CHR 0x0A, CHR 0x0B, CHR 0x0C, CHR 0x0D, CHR 0x0E, CHR 0x0F,
      CHR 0x10, CHR 0x11, CHR 0x12, CHR 0x13, CHR 0x14, CHR 0x15, CHR 0x16, CHR 0x17,
      CHR 0x18, CHR 0x19, CHR 0x1A, CHR 0x1B, CHR 0x1C, CHR 0x1D, CHR 0x1E, CHR 0x1F,
      CHR 0x20]"

definition unsafe_url_bytes :: string where
  "unsafe_url_bytes = [CHR 0x09, CHR 0x0D, CHR 0x0A]"

definition is_ascii :: "char \<Rightarrow> bool" where
  "is_ascii c = (\<not> digit7 c)"

text \<open>\<^verbatim>\<open>s.split(c)\<close> for a one-character separator, and \<^verbatim>\<open>sep.join(parts)\<close>.\<close>

fun split_on :: "char \<Rightarrow> string \<Rightarrow> string list" where
  "split_on c [] = [[]]"
| "split_on c (x # xs) =
     (if x = c then [] # split_on c xs
      else (case split_on c xs of [] \<Rightarrow> [[x]] | w # ws \<Rightarrow> (x # w) # ws))"

fun join_with :: "string \<Rightarrow> string list \<Rightarrow> string" where
  "join_with sep [] = []"
| "join_with sep [x] = x"
| "join_with sep (x # y # ys) = x @ sep @ join_with sep (y # ys)"

text \<open>\<^verbatim>\<open>s.split(c, 1)\<close> where \<^verbatim>\<open>c\<close> occurs in \<^verbatim>\<open>s\<close>: the parts around its first occurrence.\<close>

definition split_first :: "char \<Rightarrow> string \<Rightarrow> string \<times> string" where
  "split_first c s = (takeWhile (\<lambda>x. x \<noteq> c) s, drop 1 (dropWhile (\<lambda>x. x \<noteq> c) s))"

record url_parts =
  scheme :: string
  netloc :: string
  path :: string
  params :: string
  query :: string
  fragment :: string

definition checknetloc :: "url_lib \<Rightarrow> string \<Rightarrow> py_exc option" where
  "checknetloc lib nl =
     (if nl = [] \<or> list_all is_ascii nl then None else check_nonascii_netloc lib nl)"

text \<open>
  The end of \<^verbatim>\<open>urlsplit\<close>: the fragment is cut at the first \<^verbatim>\<open>#\<close>, then the query at
  the first \<^verbatim>\<open>?\<close>, then the network location is checked.
\<close>

definition split_tail :: "url_lib \<Rightarrow> string \<Rightarrow> string \<Rightarrow> string \<Rightarrow> py_exc + url_parts" where
  "split_tail lib sch nl url =
     (let (url1, frag) = (if CHR ''#'' \<in> set url then split_first CHR ''#'' url else (url, []));
          (url2, qry) = (if CHR ''?'' \<in> set url1 then split_first CHR ''?'' url1 else (url1, []))
      in case checknetloc lib nl of
           Some e \<Rightarrow> Inl e
         | None \<Rightarrow>
             Inr \<lparr>scheme = sch, netloc = nl, path = url2, params = [], query = qry,
                  fragment = frag\<rparr>)"

definition urlsplit :: "url_lib \<Rightarrow> string \<Rightarrow> string \<Rightarrow> py_exc + url_parts" where
  "urlsplit lib url0 scheme0 =
     (let url1 = filter (\<lambda>c. c \<notin> set unsafe_url_bytes)
                   (dropWhile (\<lambda>c. c \<in> set c0_control_or_space) url0);
          scheme1 = filter (\<lambda>c. c \<notin> set unsafe_url_bytes)
                   (rev (dropWhile (\<lambda>c. c \<in> set c0_control_or_space)
                      (rev (dropWhile (\<lambda>c. c \<in> set c0_control_or_space) scheme0))));
          pre = takeWhile (\<lambda>c. c \<noteq> CHR '':'') url1;
          (scheme2, url2) =
            (if CHR '':'' \<in> set url1
                \<and> (case pre of [] \<Rightarrow> False | c # cs \<Rightarrow> c \<in> set ascii_letters)
                \<and> list_all (\<lambda>c. c \<in> set scheme_chars) pre
             then (lower pre, drop (length pre + 1) url1)
             else (scheme1, url1))
      in if take 2 url2 = ''//'' then
           (let nl = takeWhile (\<lambda>c. c \<notin> set ''/?#'') (drop 2 url2);
                url3 = dropWhile (\<lambda>c. c \<notin> set ''/?#'') (drop 2 url2)
            in if (CHR ''['' \<in> set nl \<and> CHR '']'' \<notin> set nl)
                  \<or> (CHR '']'' \<in> set nl \<and> CHR ''['' \<notin> set nl)
               then Inl (Exc ValueError ''Invalid IPv6 URL'')
               else
                 (case (if CHR ''['' \<in> set nl \<and> CHR '']'' \<in> set nl
                        then check_bracketed_host lib
                               (takeWhile (\<lambda>c. c \<noteq> CHR '']'')
                                  (drop 1 (dropWhile (\<lambda>c. c \<noteq> CHR ''['') nl)))
                        else None) of
                    Some e \<Rightarrow> Inl e
                  | None \<Rightarrow> split_tail lib scheme2 nl url3))
         else split_tail lib scheme2 [] url2)"

text \<open>
  \<^verbatim>\<open>_splitparams\<close>: the parameters start at the first \<^verbatim>\<open>;\<close> at or after the last
  \<^verbatim>\<open>/\<close> (anywhere, when the path has no \<^verbatim>\<open>/\<close>).
\<close>

definition splitparams :: "string \<Rightarrow> string \<times> string" where
  "splitparams url =
     (if CHR ''/'' \<in> set url then
        (let last_seg = rev (takeWhile (\<lambda>c. c \<noteq> CHR ''/'') (rev url));
             front = take (length url - length last_seg) url
         in if CHR '';'' \<in> set last_seg
            then (front @ takeWhile (\<lambda>c. c \<noteq> CHR '';'') last_seg,
                  drop 1 (dropWhile (\<lambda>c. c \<noteq> CHR '';'') last_seg))
            else (url, []))
      else split_first CHR '';'' url)"

definition urlparse :: "url_lib \<Rightarrow> string \<Rightarrow> string \<Rightarrow> py_exc + url_parts" where
  "urlparse lib url scheme0 =
     (case urlsplit lib url scheme0 of
        Inl e \<Rightarrow> Inl e
      | Inr r \<Rightarrow>
          if scheme r \<in> set uses_params \<and> CHR '';'' \<in> set (path r)
          then (case splitparams (path r) of (u, p) \<Rightarrow> Inr (r\<lparr>path := u, params := p\<rparr>))
          else Inr r)"

definition urlunsplit :: "string \<Rightarrow> string \<Rightarrow> string \<Rightarrow> string \<Rightarrow> string \<Rightarrow> string" where
  "urlunsplit sch nl url qry frag =
     (let url1 = (if nl \<noteq> [] \<or> (sch \<noteq> [] \<and> sch \<in> set uses_netloc) \<or> take 2 url = ''//''
                  then ''//'' @ nl @ (if url \<noteq> [] \<and> take 1 url \<noteq> ''/'' then ''/'' @ url else url)
                  else url);
          url2 = (if sch \<noteq> [] then sch @ '':'' @ url1 else url1);
          url3 = (if qry \<noteq> [] then url2 @ ''?'' @ qry else url2)
      in if frag \<noteq> [] then url3 @ ''#'' @ frag else url3)"

definition urlunparse :: "url_parts \<Rightarrow> string" where
  "urlunparse r =
     urlunsplit (scheme r) (netloc r)
       (if params r \<noteq> [] then path r @ '';'' @ params r else path r) (query r) (fragment r)"

text \<open>The segments of the merged path, and the removal of the dot segments.\<close>

definition merge_segments :: "string \<Rightarrow> string \<Rightarrow> string list" where
  "merge_segments bpath p =
     (let bp = split_on CHR ''/'' bpath;
          base_parts = (if last bp \<noteq> [] then butlast bp else bp)
      in if take 1 p = ''/'' then split_on CHR ''/'' p
         else (let s = base_parts @ split_on CHR ''/'' p
               in if 2 \<le> length s
                  then hd s # filter (\<lambda>x. x \<noteq> []) (butlast (tl s)) @ [last s]
                  else s))"

definition resolve_segments :: "string list \<Rightarrow> string list" where
  "resolve_segments segments =
     (let resolved = foldl (\<lambda>rp seg. if seg = ''..'' then butlast rp
                                     else if seg = ''.'' then rp else rp @ [seg]) [] segments
      in if last segments = ''.'' \<or> last segments = ''..'' then resolved @ [[]] else resolved)"

definition join_paths :: "url_parts \<Rightarrow> url_parts \<Rightarrow> string" where
  "join_paths b u =
     (let nl = (if scheme u \<in> set uses_netloc then netloc b else netloc u)
      in if path u = [] \<and> params u = [] then
           urlunparse (u\<lparr>netloc := nl, path := path b, params := params b,
                         query := (if query u = [] then query b else query u)\<rparr>)
         else
           (let joined = join_with ''/'' (resolve_segments (merge_segments (path b) (path u)))
            in urlunparse (u\<lparr>netloc := nl, path := (if joined = [] then ''/'' else joined)\<rparr>)))"

definition py_urljoin :: "url_lib \<Rightarrow> string \<Rightarrow> string \<Rightarrow> py_exc + string" where
  "py_urljoin lib base url =
     (if base = [] then Inr url
      else if url = [] then Inr base
      else
        (case urlparse lib base [] of
           Inl e \<Rightarrow> Inl e
         | Inr b \<Rightarrow>
             (case urlparse lib url (scheme b) of
                Inl e \<Rightarrow> Inl e
              | Inr u \<Rightarrow>
                  if scheme u \<noteq> scheme b \<or> scheme u \<notin> set uses_relative then Inr url
                  else if scheme u \<in> set uses_netloc \<and> netloc u \<noteq> [] then Inr (urlunparse u)
                  else Inr (join_paths b u))))"

section \<open>The card builder\<close>

text \<open>
  \<^verbatim>\<open>resolve_url\<close> hands its arguments to the library's \<^verbatim>\<open>urljoin\<close>. The builder takes
  the resolver as an argument, so that what does not depend on the resolution is proved
  for every resolver; the resolver of the script is \<^const>\<open>py_urljoin\<close>. It raises
  \<^verbatim>\<open>ValueError\<close> on a reference it rejects (unmatched square brackets in the network
  location, for one), so its result is an exception or a string.
\<close>

type_synonym url_resolver = "string \<Rightarrow> string \<Rightarrow> py_exc + string"

definition resolve_url :: "url_resolver \<Rightarrow> string \<Rightarrow> string \<Rightarrow> py_exc + string" where
  "resolve_url urljoin base candidate = urljoin base candidate"

definition build_card ::
  "url_resolver \<Rightarrow> string \<Rightarrow> (string \<rightharpoonup> string) \<Rightarrow> string \<Rightarrow> string \<Rightarrow> py_exc + card" where
  "build_card urljoin url m title_fallback desc_fallback =
     (let og_title = m ''og:title'';
          tw_title = m ''twitter:title'';
          og_desc = m ''og:description'';
          tw_desc = m ''twitter:description'';
          meta_desc = m ''description'';
          og_image = m ''og:image'';
          tw_image = m ''twitter:image'';
          card_type = m ''twitter:card'';
          tw_site = m ''twitter:site'';
          title1 = or_str tw_title (or_str og_title title_fallback);
          description = or_str tw_desc (or_str og_desc (or_str meta_desc desc_fallback));
          image0 = or_str tw_image (or_str og_image [])
      in case (if image0 \<noteq> [] then resolve_url urljoin url image0 else Inr image0) of
           Inl e \<Rightarrow> Inl e
         | Inr image1 \<Rightarrow>
             Inr [(''type'', or_str card_type
                     (if image1 \<noteq> [] then ''summary_large_image'' else ''summary'')),
                  (''title'', title1),
                  (''description'', description),
                  (''image'', image1),
                  (''site'', or_str tw_site [])])"

section \<open>The pipeline driver: \<^verbatim>\<open>main\<close>\<close>

text \<open>
  What the run depends on outside the script: \<^verbatim>\<open>fetch_html\<close> (the network), the
  tokenizer behind \<^verbatim>\<open>parser.feed\<close>, \<^verbatim>\<open>urljoin\<close>, and \<^verbatim>\<open>str\<close> on a value that is
  not a string. Each of the first three returns or raises.
\<close>

record env =
  fetch_html :: "string \<Rightarrow> py_exc + string"
  html_events :: "string \<Rightarrow> py_exc + html_event list"
  urljoin :: url_resolver
  repr_of :: "pyval \<Rightarrow> string"

definition to_str :: "env \<Rightarrow> pyval \<Rightarrow> string" where
  "to_str e v = (case v of Str s \<Rightarrow> s | _ \<Rightarrow> repr_of e v)"

text \<open>\<^verbatim>\<open>str(project.get(k, "")).strip()\<close>.\<close>

definition get_field :: "env \<Rightarrow> project \<Rightarrow> string \<Rightarrow> string" where
  "get_field e project k =
     strip (case map_of project k of None \<Rightarrow> [] | Some v \<Rightarrow> to_str e v)"

text \<open>The classes named by the \<^verbatim>\<open>except\<close> clause of the loop.\<close>

fun caught :: "py_exc \<Rightarrow> bool" where
  "caught (Exc c msg) = (c = URLError \<or> c = HTTPError \<or> c = TimeoutError)"

fun exc_text :: "py_exc \<Rightarrow> string" where
  "exc_text (Exc c msg) = msg"

definition fallback_card :: "string \<Rightarrow> string \<Rightarrow> card" where
  "fallback_card title_fallback desc_fallback =
     [(''type'', []), (''title'', title_fallback), (''description'', desc_fallback),
      (''image'', []), (''site'', [])]"

text \<open>The body of the \<^verbatim>\<open>try\<close>: fetch, feed the parser, build the card.\<close>

definition fetch_and_build :: "env \<Rightarrow> string \<Rightarrow> string \<Rightarrow> string \<Rightarrow> py_exc + card" where
  "fetch_and_build e url title_fallback desc_fallback =
     (case fetch_html e url of
        Inl x \<Rightarrow> Inl x
      | Inr html \<Rightarrow>
          (case html_events e html of
             Inl x \<Rightarrow> Inl x
           | Inr evs \<Rightarrow>
               (let parser = feed new_parser evs;
                    t = (if strip (title parser) \<noteq> [] then strip (title parser)
                         else title_fallback)
                in build_card (urljoin e) url (meta parser) t desc_fallback)))"

text \<open>
  The card of one record, with the URLs requested from the network while computing it.
  An exception of a class the \<^verbatim>\<open>except\<close> clause does not name leaves the loop.
\<close>

definition project_card :: "env \<Rightarrow> project \<Rightarrow> (py_exc + card) \<times> string list" where
  "project_card e project =
     (let url = get_field e project ''url'';
          title_fallback = get_field e project ''name'';
          desc_fallback = get_field e project ''description'';
          card0 = fallback_card title_fallback desc_fallback
      in if url \<noteq> [] then
           (case fetch_and_build e url title_fallback desc_fallback of
              Inr c \<Rightarrow> (Inr c, [url])
            | Inl x \<Rightarrow>
                if caught x
                then (Inr (AList.update ''error'' (''fetch_failed: '' @ exc_text x) card0), [url])
                else (Inl x, [url]))
         else (Inr card0, []))"

text \<open>\<^verbatim>\<open>enriched_item = dict(project); enriched_item["card"] = card\<close>.\<close>

definition enrich_project :: "env \<Rightarrow> project \<Rightarrow> (py_exc + project) \<times> string list" where
  "enrich_project e project =
     (case project_card e project of
        (Inl x, reqs) \<Rightarrow> (Inl x, reqs)
      | (Inr c, reqs) \<Rightarrow> (Inr (AList.update ''card'' (Card c) project), reqs))"

fun enrich_all :: "env \<Rightarrow> project list \<Rightarrow> (py_exc + project list) \<times> string list" where
  "enrich_all e [] = (Inr [], [])"
| "enrich_all e (p # ps) =
     (case enrich_project e p of
        (Inl x, reqs) \<Rightarrow> (Inl x, reqs)
      | (Inr item, reqs) \<Rightarrow>
          (case enrich_all e ps of
             (Inl x, reqs') \<Rightarrow> (Inl x, reqs @ reqs')
           | (Inr rest, reqs') \<Rightarrow> (Inr (item # rest), reqs @ reqs')))"

text \<open>
  \<^verbatim>\<open>main\<close>: the input file is absent (\<^verbatim>\<open>None\<close>) or its lines; the result is the exit
  code and the document written, if any, under the timestamp \<^verbatim>\<open>now\<close>.
\<close>

definition main ::
  "env \<Rightarrow> string list option \<Rightarrow> string \<Rightarrow> py_exc + int \<times> (string \<times> project list) option" where
  "main e file now =
     (case file of
        None \<Rightarrow> Inr (1, None)
      | Some lines \<Rightarrow>
          (case parse_projects_yaml lines of
             Inl x \<Rightarrow> Inl x
           | Inr projects \<Rightarrow>
               (case fst (enrich_all e projects) of
                  Inl x \<Rightarrow> Inl x
                | Inr enriched \<Rightarrow> Inr (0, Some (now, enriched)))))"

section \<open>Sample inputs\<close>

text \<open>A small document, used to instantiate the theorems below.\<close>

definition sample_doc :: "string list" where
  "sample_doc =
     [''# projects'',
      ''- name: Foo'',
      ''  url: https://x.test'',
      [],
      ''- name: Bar'']"

text \<open>
  An environment for the examples. The fetch times out for one host, has the connection
  reset while connecting for a second (\<^verbatim>\<open>urlopen\<close> wraps that in \<^verbatim>\<open>URLError\<close>) and
  while reading the body for a third (\<^verbatim>\<open>resp.read()\<close> raises the
  \<^verbatim>\<open>ConnectionResetError\<close> as it is), rejects a URL with no scheme
  (\<^verbatim>\<open>urllib.request.Request\<close> raises \<^verbatim>\<open>ValueError\<close> for it), and returns a small page
  otherwise. The resolver is \<^const>\<open>py_urljoin\<close>; its two outside checks accept every
  host here, and no example below has a bracketed or non-ASCII host that would reach them.
\<close>

definition demo_html :: string where
  "demo_html = ''<meta property=og:title content=Hi><title>ignored</title>''"

definition demo_fetch :: "string \<Rightarrow> py_exc + string" where
  "demo_fetch url =
     (if url = ''https://down.test'' then Inl (Exc TimeoutError ''timed out'')
      else if url = ''https://refused.test''
        then Inl (Exc URLError ''<urlopen error [Errno 104] Connection reset by peer>'')
      else if url = ''https://reset.test''
        then Inl (Exc ConnectionResetError ''[Errno 104] Connection reset by peer'')
      else if url = ''example.com''
        then Inl (Exc ValueError (''unknown url type: '' @ squote @ ''example.com'' @ squote))
      else Inr demo_html)"

definition demo_events :: "string \<Rightarrow> py_exc + html_event list" where
  "demo_events html =
     Inr (if html = demo_html
          then [StartTag ''meta'' [(''property'', Some ''og:title''), (''content'', Some ''Hi'')],
                StartTag ''title'' [], Data ''ignored'', EndTag ''title'']
          else [])"

definition demo_lib :: url_lib where
  "demo_lib = \<lparr>check_bracketed_host = (\<lambda>host. None),
                check_nonascii_netloc = (\<lambda>host. None)\<rparr>"

definition demo_repr :: "pyval \<Rightarrow> string" where
  "demo_repr v = []"

definition demo_env :: env where
  "demo_env = \<lparr>fetch_html = demo_fetch, html_events = demo_events,
                urljoin = py_urljoin demo_lib, repr_of = demo_repr\<rparr>"

section \<open>The reader never raises, and cuts the document at the record starts\<close>


lemma startswith_iff: "startswith s p \<longleftrightarrow> (\<exists>r. s = p @ r)"
  unfolding startswith_def by (metis append_take_drop_id append_eq_conv_conj)

lemma parse_line_skip: "is_skipped raw \<Longrightarrow> parse_line st raw = Inr st"
  by (simp add: parse_line_def is_skipped_def Let_def)

lemma parse_line_no_record:
  "\<not> is_record_start raw \<Longrightarrow> current st = None \<Longrightarrow> parse_line st raw = Inr st"
  by (simp add: parse_line_def is_record_start_def Let_def)

lemma parse_line_stack_open:
  assumes "\<not> is_skipped raw" "\<not> is_record_start raw" "current st = Some cur"
    and "startswith (rstrip raw) ''  stack:''"
  shows "parse_line st raw =
    Inr (st\<lparr>current := Some (AList.update ''stack'' (StrList []) cur), in_stack := True\<rparr>)"
  using assms by (simp add: parse_line_def is_record_start_def is_skipped_def Let_def)

lemma parse_line_item:
  assumes "\<not> is_skipped raw" "\<not> is_record_start raw" "current st = Some cur"
    and "\<not> startswith (rstrip raw) ''  stack:''"
    and "in_stack st" "startswith (rstrip raw) ''    - ''"
  shows "parse_line st raw =
    (let stack_item = strip_quotes (drop 6 (rstrip raw)) in
     if stack_item \<noteq> [] then
       (case map_of cur ''stack'' of
          None \<Rightarrow> Inr (st\<lparr>current := Some (AList.update ''stack'' (StrList [stack_item]) cur)\<rparr>)
        | Some (StrList xs) \<Rightarrow>
            Inr (st\<lparr>current := Some (AList.update ''stack'' (StrList (xs @ [stack_item])) cur)\<rparr>)
        | Some _ \<Rightarrow> Inl (Exc AttributeError
                         (squote @ ''str'' @ squote @ '' object has no attribute '' @
                          squote @ ''append'' @ squote)))
     else Inr st)"
  using assms by (simp add: parse_line_def is_record_start_def is_skipped_def Let_def)

lemma parse_line_scalar:
  assumes "\<not> is_skipped raw" "\<not> is_record_start raw" "current st = Some cur"
    and "\<not> startswith (rstrip raw) ''  stack:''"
    and "\<not> (in_stack st \<and> startswith (rstrip raw) ''    - '')"
    and "startswith (rstrip raw) ''  ''" "CHR '':'' \<in> set (rstrip raw)"
  shows "parse_line st raw =
    Inr (st\<lparr>current := Some (set_scalar (rstrip raw) cur), in_stack := False\<rparr>)"
  using assms
  by (cases "in_stack st"; simp add: parse_line_def is_record_start_def is_skipped_def Let_def)

lemma parse_line_ignored:
  assumes "\<not> is_record_start raw"
    and "\<not> startswith (rstrip raw) ''  stack:''"
    and "\<not> (in_stack st \<and> startswith (rstrip raw) ''    - '')"
    and "\<not> (startswith (rstrip raw) ''  '' \<and> CHR '':'' \<in> set (rstrip raw))"
  shows "parse_line st raw = Inr st"
  using assms
  by (cases "in_stack st"; auto simp: parse_line_def is_record_start_def Let_def split: option.split)

lemma parse_line_other:
  assumes ns: "\<not> is_record_start raw" and ok: "stack_ok st"
  shows "\<exists>s. parse_line st raw = Inr s \<and> items s = items st \<and> stack_ok s"
proof (cases "is_skipped raw \<or> current st = None")
  case True
  then show ?thesis using ns ok by (auto simp: parse_line_skip parse_line_no_record)
next
  case False
  then obtain cur where sk: "\<not> is_skipped raw" and cur: "current st = Some cur" by auto
  show ?thesis
  proof (cases "startswith (rstrip raw) ''  stack:''")
    case True
    show ?thesis
      by (simp add: parse_line_stack_open[OF sk ns cur True] stack_ok_def AList.update_conv')
  next
    case nopen: False
    show ?thesis
    proof (cases "in_stack st \<and> startswith (rstrip raw) ''    - ''")
      case True
      then have ins: "in_stack st" and it: "startswith (rstrip raw) ''    - ''" by auto
      from ok ins cur obtain xs where xs: "map_of cur ''stack'' = Some (StrList xs)"
        by (auto simp: stack_ok_def split: option.splits pyval.splits)
      show ?thesis
        using ok ins
        by (simp add: parse_line_item[OF sk ns cur nopen ins it] xs Let_def stack_ok_def
              AList.update_conv')
    next
      case nitem: False
      show ?thesis
      proof (cases "startswith (rstrip raw) ''  '' \<and> CHR '':'' \<in> set (rstrip raw)")
        case True
        then show ?thesis
          by (simp add: parse_line_scalar[OF sk ns cur nopen nitem] stack_ok_def)
      next
        case False
        then show ?thesis using ok by (simp add: parse_line_ignored[OF ns nopen nitem])
      qed
    qed
  qed
qed


lemma record_start_not_skipped:
  assumes "is_record_start raw"
  shows "\<not> is_skipped raw"
proof -
  from assms obtain r where r: "rstrip raw = ''- '' @ r"
    by (auto simp: startswith_iff is_record_start_def)
  show ?thesis
    by (simp add: is_skipped_def r lstrip_def is_space_def startswith_def)
qed

lemma parse_line_start:
  assumes "is_record_start raw"
  shows "parse_line st raw =
     Inr \<lparr>items = flush (items st) (current st),
          current = Some (if CHR '':'' \<in> set (drop 2 (rstrip raw))
                          then set_scalar (drop 2 (rstrip raw)) [] else []),
          in_stack = False\<rparr>"
  using assms record_start_not_skipped[OF assms]
  by (simp add: parse_line_def is_record_start_def is_skipped_def Let_def)

lemma flush_append: "flush (ys @ its) cur = ys @ flush its cur"
  by (cases cur) auto

lemma parse_line_items:
  "parse_line (st\<lparr>items := ys @ items st\<rparr>) raw =
     (case parse_line st raw of Inl e \<Rightarrow> Inl e | Inr s \<Rightarrow> Inr (s\<lparr>items := ys @ items s\<rparr>))"
  by (simp add: parse_line_def Let_def flush_append split: option.split pyval.split)

lemma run_lines_items:
  "run_lines (st\<lparr>items := ys @ items st\<rparr>) ls =
     (case run_lines st ls of Inl e \<Rightarrow> Inl e | Inr s \<Rightarrow> Inr (s\<lparr>items := ys @ items s\<rparr>))"
proof (induction ls arbitrary: st)
  case Nil
  then show ?case by simp
next
  case (Cons l ls)
  show ?case
  proof (cases "parse_line st l")
    case (Inl e)
    then show ?thesis by (simp add: parse_line_items)
  next
    case (Inr s)
    then show ?thesis using Cons.IH[of s] by (simp add: parse_line_items)
  qed
qed

lemma open_after_items: "open_after (st\<lparr>items := xs\<rparr>) ls = open_after st ls"
proof -
  have A: "open_after (s\<lparr>items := ys @ items s\<rparr>) ls = open_after s ls" for s ys
    by (simp add: open_after_def run_lines_items split: sum.split)
  from A[where s = "st\<lparr>items := []\<rparr>" and ys = xs]
    A[where s = "st\<lparr>items := []\<rparr>" and ys = "items st"]
  show ?thesis by simp
qed

lemma parse_line_ok:
  assumes "stack_ok st"
  shows "\<exists>s. parse_line st raw = Inr s \<and> stack_ok s"
proof (cases "is_record_start raw")
  case True
  then show ?thesis by (simp add: parse_line_start stack_ok_def)
next
  case False
  then show ?thesis using parse_line_other[OF False assms] by blast
qed

lemma run_lines_ok:
  "stack_ok st \<Longrightarrow> \<exists>s. run_lines st ls = Inr s \<and> stack_ok s"
proof (induction ls arbitrary: st)
  case Nil
  then show ?case by simp
next
  case (Cons l ls)
  from parse_line_ok[OF Cons.prems, of l] obtain s where s: "parse_line st l = Inr s" "stack_ok s"
    by blast
  with Cons.IH[of s] show ?case by simp
qed

lemma run_lines_no_record:
  "current st = None \<Longrightarrow> \<forall>l\<in>set ls. \<not> is_record_start l \<Longrightarrow> run_lines st ls = Inr st"
  by (induction ls) (simp_all add: parse_line_no_record)

lemma split_records_fst: "fst (split_records ls) = takeWhile (\<lambda>l. \<not> is_record_start l) ls"
  by (induction ls) (auto split: prod.splits)

lemma split_records_concat: "fst (split_records ls) @ concat (snd (split_records ls)) = ls"
  by (induction ls) (auto split: prod.splits)

lemma split_records_hd: "map hd (snd (split_records ls)) = filter is_record_start ls"
  by (induction ls) (auto split: prod.splits)

lemma split_records_shape:
  "c \<in> set (snd (split_records ls)) \<Longrightarrow>
     \<exists>l pre. c = l # pre \<and> is_record_start l \<and> (\<forall>x\<in>set pre. \<not> is_record_start x)"
proof (induction ls arbitrary: c)
  case Nil
  then show ?case by simp
next
  case (Cons a ls)
  obtain pre cs where sp: "split_records ls = (pre, cs)" by (cases "split_records ls")
  have pre: "\<forall>x\<in>set pre. \<not> is_record_start x"
    using split_records_fst[of ls] sp by (auto dest: set_takeWhileD)
  show ?case
  proof (cases "is_record_start a")
    case True
    with Cons.prems sp have "c = a # pre \<or> c \<in> set (snd (split_records ls))" by auto
    then show ?thesis using True pre Cons.IH by blast
  next
    case False
    with Cons.prems sp have "c \<in> set (snd (split_records ls))" by auto
    then show ?thesis using Cons.IH by blast
  qed
qed

lemma final_records:
  assumes "stack_ok st"
  shows "\<exists>s. run_lines st ls = Inr s \<and>
           flush (items s) (current s) =
             items st @ flush [] (open_after st (fst (split_records ls))) @
             filter (\<lambda>r. r \<noteq> []) (map record_of_chunk (snd (split_records ls)))"
  using assms
proof (induction ls arbitrary: st)
  case Nil
  have "flush (items st) (current st) = items st @ flush [] (current st)"
    using flush_append[of "items st" "[]"] by simp
  then show ?case by (simp add: open_after_def)
next
  case (Cons l ls)
  obtain pre cs where sp: "split_records ls = (pre, cs)" by (cases "split_records ls")
  show ?case
  proof (cases "is_record_start l")
    case True
    define c0 where "c0 = (if CHR '':'' \<in> set (drop 2 (rstrip l))
                          then set_scalar (drop 2 (rstrip l)) [] else [])"
    define st1 where "st1 = \<lparr>items = flush (items st) (current st), current = Some c0,
                              in_stack = False\<rparr>"
    have p1: "parse_line st l = Inr st1"
      by (simp add: parse_line_start[OF True] st1_def c0_def)
    have ok1: "stack_ok st1" by (simp add: st1_def stack_ok_def)
    from Cons.IH[OF ok1] sp obtain s where
      run: "run_lines st1 ls = Inr s" and
      fl: "flush (items s) (current s) =
             items st1 @ flush [] (open_after st1 pre) @
             filter (\<lambda>r. r \<noteq> []) (map record_of_chunk cs)"
      by auto
    have i1: "items st1 = items st @ flush [] (current st)"
      using flush_append[of "items st" "[]"] by (simp add: st1_def)
    have "parse_line init_pstate l = Inr (st1\<lparr>items := []\<rparr>)"
      by (simp add: parse_line_start[OF True] st1_def c0_def init_pstate_def)
    then have "open_after init_pstate (l # pre) = open_after (st1\<lparr>items := []\<rparr>) pre"
      by (simp add: open_after_def)
    then have oa: "open_after init_pstate (l # pre) = open_after st1 pre"
      by (simp add: open_after_items)
    have rc: "flush [] (open_after st1 pre) = filter (\<lambda>r. r \<noteq> []) [record_of_chunk (l # pre)]"
      by (cases "open_after st1 pre") (simp_all add: record_of_chunk_def oa)
    show ?thesis
      using True sp run fl i1 rc by (simp add: p1 open_after_def)
  next
    case False
    from parse_line_other[OF False Cons.prems] obtain s1 where
      p1: "parse_line st l = Inr s1" and i1: "items s1 = items st" and ok1: "stack_ok s1"
      by blast
    from Cons.IH[OF ok1] sp obtain s where
      run: "run_lines s1 ls = Inr s" and
      fl: "flush (items s) (current s) =
             items s1 @ flush [] (open_after s1 pre) @
             filter (\<lambda>r. r \<noteq> []) (map record_of_chunk cs)"
      by auto
    have "open_after st (l # pre) = open_after s1 pre"
      by (simp add: open_after_def p1)
    then show ?thesis
      using False sp run fl i1 by (simp add: p1)
  qed
qed

lemma parse_chunks:
  "parse_projects_yaml ls =
     Inr (filter (\<lambda>r. r \<noteq> []) (map record_of_chunk (record_chunks ls)))"
proof -
  have ok: "stack_ok init_pstate" by (simp add: stack_ok_def init_pstate_def)
  have "\<forall>l\<in>set (fst (split_records ls)). \<not> is_record_start l"
    by (auto simp: split_records_fst dest: set_takeWhileD)
  then have "run_lines init_pstate (fst (split_records ls)) = Inr init_pstate"
    by (intro run_lines_no_record) (simp_all add: init_pstate_def)
  then have "open_after init_pstate (fst (split_records ls)) = None"
    by (simp add: open_after_def init_pstate_def)
  with final_records[OF ok, of ls] show ?thesis
    by (auto simp: parse_projects_yaml_def record_chunks_def init_pstate_def)
qed



lemma set_scalar_nonempty: "set_scalar line cur \<noteq> []"
  by (simp add: set_scalar_def split: prod.split)

lemma parse_line_fields:
  assumes ns: "\<not> is_record_start raw" and ok: "stack_ok st" and hf: "has_fields st"
  shows "\<exists>s. parse_line st raw = Inr s \<and> stack_ok s \<and> has_fields s"
proof -
  from hf obtain cur where cur: "current st = Some cur" and ne: "cur \<noteq> []"
    by (auto simp: has_fields_def split: option.splits)
  show ?thesis
  proof (cases "is_skipped raw")
    case True
    then show ?thesis using ok hf by (simp add: parse_line_skip)
  next
    case sk: False
    show ?thesis
    proof (cases "startswith (rstrip raw) ''  stack:''")
      case True
      show ?thesis
        by (simp add: parse_line_stack_open[OF sk ns cur True] stack_ok_def has_fields_def
              AList.update_conv')
    next
      case nopen: False
      show ?thesis
      proof (cases "in_stack st \<and> startswith (rstrip raw) ''    - ''")
        case True
        then have ins: "in_stack st" and it: "startswith (rstrip raw) ''    - ''" by auto
        from ok ins cur obtain xs where xs: "map_of cur ''stack'' = Some (StrList xs)"
          by (auto simp: stack_ok_def split: option.splits pyval.splits)
        show ?thesis
          using ok ins hf
          by (simp add: parse_line_item[OF sk ns cur nopen ins it] xs Let_def stack_ok_def
                has_fields_def AList.update_conv')
      next
        case nitem: False
        show ?thesis
        proof (cases "startswith (rstrip raw) ''  '' \<and> CHR '':'' \<in> set (rstrip raw)")
          case True
          then show ?thesis
            by (simp add: parse_line_scalar[OF sk ns cur nopen nitem] stack_ok_def
                  has_fields_def set_scalar_nonempty)
        next
          case False
          then show ?thesis
            using ok hf by (simp add: parse_line_ignored[OF ns nopen nitem])
        qed
      qed
    qed
  qed
qed

lemma run_lines_fields:
  "stack_ok st \<Longrightarrow> has_fields st \<Longrightarrow> \<forall>l\<in>set ls. \<not> is_record_start l \<Longrightarrow>
     \<exists>s. run_lines st ls = Inr s \<and> has_fields s"
proof (induction ls arbitrary: st)
  case Nil
  then show ?case by simp
next
  case (Cons l ls)
  from Cons.prems have "\<not> is_record_start l" by simp
  from parse_line_fields[OF this Cons.prems(1,2)] obtain s where
    s: "parse_line st l = Inr s" "stack_ok s" "has_fields s" by blast
  from Cons.IH[OF s(2,3)] Cons.prems(3) s(1) show ?case by simp
qed

lemma record_of_chunk_nonempty:
  assumes st: "is_record_start l" and col: "CHR '':'' \<in> set (drop 2 (rstrip l))"
    and pre: "\<forall>x\<in>set pre. \<not> is_record_start x"
  shows "record_of_chunk (l # pre) \<noteq> []"
proof -
  define st1 where "st1 = \<lparr>items = [], current = Some (set_scalar (drop 2 (rstrip l)) []),
                            in_stack = False\<rparr>"
  have p1: "parse_line init_pstate l = Inr st1"
    using col by (simp add: parse_line_start[OF st] st1_def init_pstate_def)
  have "stack_ok st1" "has_fields st1"
    by (simp_all add: st1_def stack_ok_def has_fields_def set_scalar_nonempty)
  from run_lines_fields[OF this pre] obtain s where
    "run_lines st1 pre = Inr s" "has_fields s" by blast
  then show ?thesis
    by (auto simp: record_of_chunk_def open_after_def p1 has_fields_def split: option.splits)
qed

lemma valid_document_chunks:
  assumes "\<forall>l\<in>set ls. is_record_start l \<longrightarrow> CHR '':'' \<in> set (drop 2 (rstrip l))"
  shows "\<forall>c\<in>set (record_chunks ls). record_of_chunk c \<noteq> []"
proof
  fix c assume c: "c \<in> set (record_chunks ls)"
  then obtain l pre where sh: "c = l # pre" "is_record_start l"
      "\<forall>x\<in>set pre. \<not> is_record_start x"
    using split_records_shape[of c ls] by (auto simp: record_chunks_def)
  have "set c \<subseteq> set ls"
    using c split_records_concat[of ls] unfolding record_chunks_def
    by (metis Sup_upper Un_upper2 image_eqI set_append set_concat subset_trans)
  with sh have "l \<in> set ls" by auto
  with assms sh have "CHR '':'' \<in> set (drop 2 (rstrip l))" by blast
  with sh show "record_of_chunk c \<noteq> []" by (simp add: record_of_chunk_nonempty)
qed

text \<open>
  Claim C1, as amended. \<^verbatim>\<open>parse\<close> returns, in file order, one record for each
  record-start line whose record has at least one key when it is closed (by the next
  record start or by the end of the input); a record start whose record stays empty gives
  no output record. The chunks begin with the record-start lines, in order, and cover the
  document from the first of them on. When every record-start line carries a
  \<^verbatim>\<open>key: value\<close> pair, there is exactly one output record per record-start line.
\<close>

theorem parse_one_record_per_nonempty_chunk:
  "parse_projects_yaml ls =
           Inr (filter (\<lambda>r. r \<noteq> []) (map record_of_chunk (record_chunks ls)))
   \<and> map hd (record_chunks ls) = filter is_record_start ls
   \<and> concat (record_chunks ls) = dropWhile (\<lambda>l. \<not> is_record_start l) ls
   \<and> ((\<forall>l\<in>set ls. is_record_start l \<longrightarrow> CHR '':'' \<in> set (drop 2 (rstrip l))) \<longrightarrow>
        (\<exists>rs. parse_projects_yaml ls = Inr rs \<and> rs = map record_of_chunk (record_chunks ls)
              \<and> length rs = length (filter is_record_start ls)))"
proof (intro conjI impI)
  show "parse_projects_yaml ls =
           Inr (filter (\<lambda>r. r \<noteq> []) (map record_of_chunk (record_chunks ls)))"
    by (rule parse_chunks)
  show h: "map hd (record_chunks ls) = filter is_record_start ls"
    by (simp add: record_chunks_def split_records_hd)
  show "concat (record_chunks ls) = dropWhile (\<lambda>l. \<not> is_record_start l) ls"
  proof -
    have "takeWhile (\<lambda>l. \<not> is_record_start l) ls @ concat (record_chunks ls) =
            takeWhile (\<lambda>l. \<not> is_record_start l) ls @ dropWhile (\<lambda>l. \<not> is_record_start l) ls"
      using split_records_concat[of ls] by (simp add: record_chunks_def split_records_fst)
    then show ?thesis by (simp only: same_append_eq)
  qed
  assume v: "\<forall>l\<in>set ls. is_record_start l \<longrightarrow> CHR '':'' \<in> set (drop 2 (rstrip l))"
  have "filter (\<lambda>r. r \<noteq> []) (map record_of_chunk (record_chunks ls)) =
          map record_of_chunk (record_chunks ls)"
    using valid_document_chunks[OF v] by (simp add: filter_id_conv)
  moreover have "length (record_chunks ls) = length (filter is_record_start ls)"
    using arg_cong[OF h, of length] by simp
  ultimately show "\<exists>rs. parse_projects_yaml ls = Inr rs \<and> rs = map record_of_chunk (record_chunks ls)
              \<and> length rs = length (filter is_record_start ls)"
    by (simp add: parse_chunks)
qed

theorem parse_one_record_per_nonempty_chunk_witness:
  "parse_projects_yaml sample_doc =
     Inr [[(''name'', Str ''Foo''), (''url'', Str ''https://x.test'')], [(''name'', Str ''Bar'')]]
   \<and> map hd (record_chunks sample_doc) = [''- name: Foo'', ''- name: Bar'']
   \<and> length (filter is_record_start sample_doc) = 2"
proof -
  have valid: "\<forall>l\<in>set sample_doc. is_record_start l \<longrightarrow> CHR '':'' \<in> set (drop 2 (rstrip l))"
    by (simp add: sample_doc_def is_record_start_def rstrip_def startswith_def is_space_def)
  have parsed: "parse_projects_yaml sample_doc =
     Inr [[(''name'', Str ''Foo''), (''url'', Str ''https://x.test'')], [(''name'', Str ''Bar'')]]"
    by (simp add: sample_doc_def parse_projects_yaml_def init_pstate_def parse_line_def
          rstrip_def lstrip_def strip_def startswith_def endswith_def is_space_def
          set_scalar_def split_colon_def strip_quotes_def dquote_def squote_def)
  have heads: "map hd (record_chunks sample_doc) = [''- name: Foo'', ''- name: Bar'']"
    by (simp add: sample_doc_def record_chunks_def is_record_start_def rstrip_def
          startswith_def is_space_def)
  from parse_one_record_per_nonempty_chunk[of sample_doc] valid obtain rs where
    "parse_projects_yaml sample_doc = Inr rs"
    "length rs = length (filter is_record_start sample_doc)"
    by blast
  with parsed heads show ?thesis by auto
qed

text \<open>
  The claim as first stated fails: a record-start line with no colon opens an empty record,
  which is dropped. Two record-start lines, one output record.
\<close>

theorem parse_drops_empty_record:
  "length (filter is_record_start [''- foo'', ''- name: x'']) = 2
   \<and> parse_projects_yaml [''- foo'', ''- name: x''] = Inr [[(''name'', Str ''x'')]]"
  by (simp add: parse_projects_yaml_def init_pstate_def parse_line_def
        is_record_start_def rstrip_def lstrip_def strip_def startswith_def
        endswith_def is_space_def set_scalar_def split_colon_def strip_quotes_def
        dquote_def squote_def)

section \<open>Which lines set a scalar field\<close>

lemma two_spaces_iff: "startswith line ''  '' \<longleftrightarrow> 2 \<le> leading_spaces line"
proof
  assume "startswith line ''  ''"
  then obtain r where "line = ''  '' @ r" by (auto simp: startswith_iff)
  then show "2 \<le> leading_spaces line" by (simp add: leading_spaces_def)
next
  assume a: "2 \<le> leading_spaces line"
  then obtain a b r where l: "line = a # b # r"
    by (cases line; cases "tl line"; auto simp: leading_spaces_def split: if_splits)
  with a show "startswith line ''  ''"
    by (auto simp: leading_spaces_def startswith_def split: if_splits)
qed

lemma few_spaces_not_nested:
  assumes "leading_spaces line < 2"
  shows "\<not> startswith line ''  stack:''" "\<not> startswith line ''    - ''" "\<not> startswith line ''  ''"
proof -
  show c: "\<not> startswith line ''  ''" using assms by (simp add: two_spaces_iff)
  show "\<not> startswith line ''  stack:''" using c by (auto simp: startswith_iff)
  show "\<not> startswith line ''    - ''" using c by (auto simp: startswith_iff)
qed

text \<open>
  Claim C6, as amended. Within a record (a record is open), a line sets a top-level scalar
  field on the current record and closes the stack context exactly when it is neither blank
  nor a comment, begins with at least two spaces (two or more, not exactly two), contains a
  colon, does not begin with \<^verbatim>\<open>  stack:\<close> and is not taken as a stack item (a line
  beginning with four spaces, dash, space while the stack context is open). A line that is
  none of record start, stack opener or stack item and fails one of these conditions leaves
  the state as it is; so does every line with fewer than two leading spaces that does not
  start a record.
\<close>

theorem scalar_field_lines:
  assumes cur: "current st = Some cur"
  shows "(\<not> is_skipped raw \<and> 2 \<le> leading_spaces (rstrip raw) \<and> CHR '':'' \<in> set (rstrip raw)
           \<and> \<not> startswith (rstrip raw) ''  stack:''
           \<and> \<not> (in_stack st \<and> startswith (rstrip raw) ''    - '')
         \<longrightarrow> parse_line st raw =
               Inr (st\<lparr>current := Some (set_scalar (rstrip raw) cur), in_stack := False\<rparr>))
       \<and> (\<not> is_record_start raw \<and> \<not> startswith (rstrip raw) ''  stack:''
           \<and> \<not> (in_stack st \<and> startswith (rstrip raw) ''    - '')
           \<and> (is_skipped raw \<or> leading_spaces (rstrip raw) < 2 \<or> CHR '':'' \<notin> set (rstrip raw))
         \<longrightarrow> parse_line st raw = Inr st)
       \<and> (leading_spaces (rstrip raw) < 2 \<and> \<not> is_record_start raw \<longrightarrow> parse_line st raw = Inr st)"
proof (intro conjI impI)
  assume a: "\<not> is_skipped raw \<and> 2 \<le> leading_spaces (rstrip raw) \<and> CHR '':'' \<in> set (rstrip raw)
           \<and> \<not> startswith (rstrip raw) ''  stack:''
           \<and> \<not> (in_stack st \<and> startswith (rstrip raw) ''    - '')"
  then have sp: "startswith (rstrip raw) ''  ''" by (simp add: two_spaces_iff)
  then have "\<not> is_record_start raw" by (auto simp: is_record_start_def startswith_iff)
  with a sp cur show "parse_line st raw =
               Inr (st\<lparr>current := Some (set_scalar (rstrip raw) cur), in_stack := False\<rparr>)"
    by (intro parse_line_scalar) simp_all
next
  assume a: "\<not> is_record_start raw \<and> \<not> startswith (rstrip raw) ''  stack:''
           \<and> \<not> (in_stack st \<and> startswith (rstrip raw) ''    - '')
           \<and> (is_skipped raw \<or> leading_spaces (rstrip raw) < 2 \<or> CHR '':'' \<notin> set (rstrip raw))"
  show "parse_line st raw = Inr st"
  proof (cases "is_skipped raw")
    case True
    then show ?thesis by (rule parse_line_skip)
  next
    case False
    with a have "\<not> (startswith (rstrip raw) ''  '' \<and> CHR '':'' \<in> set (rstrip raw))"
      by (auto simp: two_spaces_iff)
    with a show ?thesis by (intro parse_line_ignored) simp_all
  qed
next
  assume a: "leading_spaces (rstrip raw) < 2 \<and> \<not> is_record_start raw"
  then show "parse_line st raw = Inr st"
    using few_spaces_not_nested[of "rstrip raw"] by (intro parse_line_ignored) simp_all
qed

theorem scalar_field_lines_witness:
  "parse_line \<lparr>items = [], current = Some [(''name'', Str ''x'')], in_stack = False\<rparr> ''  url: y'' =
     Inr \<lparr>items = [], current = Some [(''name'', Str ''x''), (''url'', Str ''y'')],
          in_stack = False\<rparr>
   \<and> parse_line \<lparr>items = [], current = Some [(''name'', Str ''x'')], in_stack = False\<rparr> '' url: y'' =
     Inr \<lparr>items = [], current = Some [(''name'', Str ''x'')], in_stack = False\<rparr>"
proof -
  let ?st = "\<lparr>items = [], current = Some [(''name'', Str ''x'')], in_stack = False\<rparr>"
  have cur: "current ?st = Some [(''name'', Str ''x'')]" by simp
  have h1: "\<not> is_skipped ''  url: y'' \<and> 2 \<le> leading_spaces (rstrip ''  url: y'')
      \<and> CHR '':'' \<in> set (rstrip ''  url: y'')
      \<and> \<not> startswith (rstrip ''  url: y'') ''  stack:''
      \<and> \<not> (in_stack ?st \<and> startswith (rstrip ''  url: y'') ''    - '')"
    by (simp add: is_skipped_def leading_spaces_def rstrip_def lstrip_def startswith_def
          is_space_def)
  have h2: "leading_spaces (rstrip '' url: y'') < 2 \<and> \<not> is_record_start '' url: y''"
    by (simp add: is_record_start_def leading_spaces_def rstrip_def startswith_def is_space_def)
  have v: "set_scalar (rstrip ''  url: y'') [(''name'', Str ''x'')] =
             [(''name'', Str ''x''), (''url'', Str ''y'')]"
    by (simp add: set_scalar_def split_colon_def strip_quotes_def strip_def rstrip_def
          lstrip_def startswith_def endswith_def is_space_def dquote_def squote_def)
  from scalar_field_lines[OF cur, of "''  url: y''"] h1
  have a: "parse_line ?st ''  url: y'' =
      Inr (?st\<lparr>current := Some (set_scalar (rstrip ''  url: y'') [(''name'', Str ''x'')]),
              in_stack := False\<rparr>)"
    by blast
  from scalar_field_lines[OF cur, of "'' url: y''"] h2
  have b: "parse_line ?st '' url: y'' = Inr ?st" by blast
  show ?thesis using a b by (simp add: v)
qed

text \<open>
  The claim as first stated fails: a line with four leading spaces and a colon, outside a
  stack context, sets a scalar field.
\<close>

theorem four_spaces_set_scalar:
  "leading_spaces (rstrip ''    url: y'') = 4
   \<and> parse_line \<lparr>items = [], current = Some [(''name'', Str ''x'')], in_stack = False\<rparr>
        ''    url: y'' =
      Inr \<lparr>items = [], current = Some [(''name'', Str ''x''), (''url'', Str ''y'')],
           in_stack = False\<rparr>"
  by (simp add: parse_line_def leading_spaces_def
        rstrip_def lstrip_def strip_def startswith_def endswith_def is_space_def
        set_scalar_def split_colon_def strip_quotes_def dquote_def squote_def)

section \<open>The stack block\<close>

lemma stack_open_line:
  assumes "startswith (rstrip l) ''  stack:''"
  shows "\<not> is_skipped l" "\<not> is_record_start l"
proof -
  from assms obtain r where r: "rstrip l = ''  stack:'' @ r" by (auto simp: startswith_iff)
  show "\<not> is_skipped l" by (simp add: is_skipped_def r lstrip_def is_space_def startswith_def)
  show "\<not> is_record_start l" by (simp add: is_record_start_def r startswith_def)
qed

lemma stack_item_line:
  assumes "startswith (rstrip l) ''    - ''"
  shows "\<not> is_skipped l" "\<not> is_record_start l" "\<not> startswith (rstrip l) ''  stack:''"
proof -
  from assms obtain r where r: "rstrip l = ''    - '' @ r" by (auto simp: startswith_iff)
  show "\<not> is_skipped l" by (simp add: is_skipped_def r lstrip_def is_space_def startswith_def)
  show "\<not> is_record_start l" by (simp add: is_record_start_def r startswith_def)
  show "\<not> startswith (rstrip l) ''  stack:''" by (simp add: r startswith_def)
qed

lemma run_stack_items:
  assumes "\<forall>r\<in>set rs. startswith (rstrip r) ''    - ''"
  shows "run_lines (st\<lparr>current := Some (AList.update ''stack'' (StrList xs) cur), in_stack := True\<rparr>) rs =
     Inr (st\<lparr>current := Some (AList.update ''stack''
            (StrList (xs @ filter (\<lambda>v. v \<noteq> []) (map item_value rs))) cur), in_stack := True\<rparr>)"
  using assms
proof (induction rs arbitrary: xs)
  case Nil
  then show ?case by simp
next
  case (Cons r rs)
  let ?s = "st\<lparr>current := Some (AList.update ''stack'' (StrList xs) cur), in_stack := True\<rparr>"
  from Cons.prems have it: "startswith (rstrip r) ''    - ''" by simp
  have step: "parse_line ?s r =
     Inr (st\<lparr>current := Some (AList.update ''stack''
            (StrList (xs @ filter (\<lambda>v. v \<noteq> []) [item_value r])) cur), in_stack := True\<rparr>)"
    using parse_line_item[OF stack_item_line(1)[OF it] stack_item_line(2)[OF it] _
        stack_item_line(3)[OF it] _ it, of ?s "AList.update ''stack'' (StrList xs) cur"]
    by (simp add: Let_def AList.update_conv' item_value_def)
  from Cons.IH[of "xs @ filter (\<lambda>v. v \<noteq> []) [item_value r]"] Cons.prems
  show ?case by (simp add: step)
qed

lemma run_lines_append:
  "run_lines st (as @ bs) = (case run_lines st as of Inl e \<Rightarrow> Inl e | Inr s \<Rightarrow> run_lines s bs)"
  by (induction as arbitrary: st) (auto split: sum.splits)

lemma parse_line_open:
  assumes ns: "\<not> is_record_start raw" and ok: "stack_ok st" and cur: "current st = Some c"
  shows "\<exists>s c'. parse_line st raw = Inr s \<and> items s = items st \<and> stack_ok s \<and> current s = Some c'"
proof (cases "is_skipped raw")
  case True
  then show ?thesis using ok cur by (simp add: parse_line_skip)
next
  case sk: False
  show ?thesis
  proof (cases "startswith (rstrip raw) ''  stack:''")
    case True
    show ?thesis
      by (simp add: parse_line_stack_open[OF sk ns cur True] stack_ok_def AList.update_conv')
  next
    case nopen: False
    show ?thesis
    proof (cases "in_stack st \<and> startswith (rstrip raw) ''    - ''")
      case True
      then have ins: "in_stack st" and it: "startswith (rstrip raw) ''    - ''" by auto
      from ok ins cur obtain xs where xs: "map_of c ''stack'' = Some (StrList xs)"
        by (auto simp: stack_ok_def split: option.splits pyval.splits)
      show ?thesis
        using ok ins cur
        by (simp add: parse_line_item[OF sk ns cur nopen ins it] xs Let_def stack_ok_def
              AList.update_conv')
    next
      case nitem: False
      show ?thesis
      proof (cases "startswith (rstrip raw) ''  '' \<and> CHR '':'' \<in> set (rstrip raw)")
        case True
        then show ?thesis
          by (simp add: parse_line_scalar[OF sk ns cur nopen nitem] stack_ok_def)
      next
        case False
        then show ?thesis
          using ok cur by (simp add: parse_line_ignored[OF ns nopen nitem])
      qed
    qed
  qed
qed

lemma run_lines_open:
  "stack_ok st \<Longrightarrow> current st = Some c \<Longrightarrow> \<forall>l\<in>set ls. \<not> is_record_start l \<Longrightarrow>
     \<exists>s c'. run_lines st ls = Inr s \<and> items s = items st \<and> stack_ok s \<and> current s = Some c'"
proof (induction ls arbitrary: st c)
  case Nil
  then show ?case by simp
next
  case (Cons l ls)
  from Cons.prems have "\<not> is_record_start l" by simp
  from parse_line_open[OF this Cons.prems(1,2)] obtain s c' where
    s: "parse_line st l = Inr s" "items s = items st" "stack_ok s" "current s = Some c'"
    by blast
  from Cons.IH[OF s(3,4)] Cons.prems(3) s(1,2) show ?case by auto
qed

lemma set_scalar_other_key:
  "strip (fst (split_colon line)) \<noteq> k \<Longrightarrow> map_of (set_scalar line c) k = map_of c k"
proof -
  assume k: "strip (fst (split_colon line)) \<noteq> k"
  obtain a b where ab: "split_colon line = (a, b)" by (cases "split_colon line")
  with k show ?thesis by (simp add: set_scalar_def AList.update_conv')
qed

lemma parse_line_keeps_stack:
  assumes ks: "keeps_stack raw" and cur: "current st = Some c"
    and v: "map_of c ''stack'' = Some V"
  shows "\<exists>s c'. parse_line st raw = Inr s \<and> items s = items st \<and> current s = Some c'
           \<and> map_of c' ''stack'' = Some V"
proof -
  from ks have ns: "\<not> is_record_start raw" and nopen: "\<not> startswith (rstrip raw) ''  stack:''"
    and nit: "\<not> startswith (rstrip raw) ''    - ''"
    by (simp_all add: keeps_stack_def)
  from nit have nitem: "\<not> (in_stack st \<and> startswith (rstrip raw) ''    - '')" by simp
  show ?thesis
  proof (cases "is_skipped raw")
    case True
    then show ?thesis using cur v by (simp add: parse_line_skip)
  next
    case sk: False
    show ?thesis
    proof (cases "startswith (rstrip raw) ''  '' \<and> CHR '':'' \<in> set (rstrip raw)")
      case True
      with ks sk have "strip (fst (split_colon (rstrip raw))) \<noteq> ''stack''"
        by (auto simp: keeps_stack_def)
      then show ?thesis using True v
        by (simp add: parse_line_scalar[OF sk ns cur nopen nitem] set_scalar_other_key)
    next
      case False
      then show ?thesis using cur v by (simp add: parse_line_ignored[OF ns nopen nitem])
    qed
  qed
qed

lemma run_lines_keeps_stack:
  "\<forall>x\<in>set ls. keeps_stack x \<Longrightarrow> current st = Some c \<Longrightarrow> map_of c ''stack'' = Some V \<Longrightarrow>
     \<exists>s c'. run_lines st ls = Inr s \<and> items s = items st \<and> current s = Some c'
           \<and> map_of c' ''stack'' = Some V"
proof (induction ls arbitrary: st c)
  case Nil
  then show ?case by simp
next
  case (Cons l ls)
  from Cons.prems have "keeps_stack l" by simp
  from parse_line_keeps_stack[OF this Cons.prems(2,3)] obtain s c' where
    s: "parse_line st l = Inr s" "items s = items st" "current s = Some c'"
       "map_of c' ''stack'' = Some V"
    by blast
  from Cons.IH[OF _ s(3,4)] Cons.prems(1) s(1,2) show ?case by auto
qed

lemma stack_block_state:
  assumes cur: "current st = Some cur"
    and op: "startswith (rstrip l) ''  stack:''"
    and its: "\<forall>r\<in>set rs. startswith (rstrip r) ''    - ''"
  shows "run_lines st (l # rs) =
     Inr (st\<lparr>current := Some (AList.update ''stack''
            (StrList (filter (\<lambda>v. v \<noteq> []) (map item_value rs))) cur), in_stack := True\<rparr>)"
  using run_stack_items[OF its, where st = st and xs = "[]" and cur = cur]
  by (simp add: parse_line_stack_open[OF stack_open_line[OF op] cur op])

lemma chunk_with_stack_block:
  assumes s: "is_record_start s" and f: "\<forall>x\<in>set flds. \<not> is_record_start x"
    and op: "startswith (rstrip l) ''  stack:''"
    and its: "\<forall>r\<in>set rs. startswith (rstrip r) ''    - ''"
    and tl: "\<forall>x\<in>set tail. keeps_stack x"
  shows "\<exists>r. open_after init_pstate (s # flds @ l # rs @ tail) = Some r
          \<and> map_of r ''stack'' = Some (StrList (filter (\<lambda>v. v \<noteq> []) (map item_value rs)))"
proof -
  let ?V = "StrList (filter (\<lambda>v. v \<noteq> []) (map item_value rs))"
  obtain st1 c1 where p1: "parse_line init_pstate s = Inr st1" and c1: "current st1 = Some c1"
    and ok1: "stack_ok st1"
    by (simp add: parse_line_start[OF s] stack_ok_def)
  from run_lines_open[OF ok1 c1 f] obtain st2 c2 where
    r2: "run_lines st1 flds = Inr st2" and c2: "current st2 = Some c2" by blast
  let ?st3 = "st2\<lparr>current := Some (AList.update ''stack'' ?V c2), in_stack := True\<rparr>"
  have r3: "run_lines st2 (l # rs) = Inr ?st3" by (rule stack_block_state[OF c2 op its])
  have c3: "current ?st3 = Some (AList.update ''stack'' ?V c2)" by simp
  have v3: "map_of (AList.update ''stack'' ?V c2) ''stack'' = Some ?V"
    by (simp add: AList.update_conv')
  from run_lines_keeps_stack[OF tl c3 v3] obtain st4 c4 where
    r4: "run_lines ?st3 tail = Inr st4" and c4: "current st4 = Some c4"
    and v4: "map_of c4 ''stack'' = Some ?V" by blast
  have a: "run_lines st2 ((l # rs) @ tail) = Inr st4"
    by (subst run_lines_append) (simp only: r3 r4 sum.case)
  have b: "run_lines st1 (flds @ (l # rs) @ tail) = Inr st4"
    by (subst run_lines_append) (simp only: r2 a sum.case)
  have "run_lines init_pstate (s # flds @ (l # rs) @ tail) = Inr st4"
    using b by (simp add: p1)
  then show ?thesis using c4 v4 by (simp add: open_after_def)
qed

lemma split_records_no_start:
  "\<forall>x\<in>set body. \<not> is_record_start x \<Longrightarrow> split_records body = (body, [])"
  by (induction body) auto

lemma split_records_append:
  assumes "b = [] \<or> is_record_start (hd b)"
  shows "split_records (a @ b) = (fst (split_records a), snd (split_records a) @ snd (split_records b))"
proof (induction a)
  case Nil
  have "fst (split_records b) = []" using assms by (cases b) (auto split: prod.splits)
  then show ?case by (simp add: prod_eq_iff)
next
  case (Cons x a)
  then show ?case by (simp split: prod.split)
qed

lemma record_chunks_around:
  assumes s: "is_record_start s" and body: "\<forall>x\<in>set body. \<not> is_record_start x"
    and rest: "rest = [] \<or> is_record_start (hd rest)"
  shows "record_chunks (before @ s # body @ rest) =
           record_chunks before @ (s # body) # record_chunks rest"
proof -
  have a: "record_chunks ((s # body) @ rest) = (s # body) # record_chunks rest"
    using split_records_append[OF rest, of "s # body"] s
    by (simp add: record_chunks_def split_records_no_start[OF body])
  have "record_chunks (before @ ((s # body) @ rest)) =
          record_chunks before @ record_chunks ((s # body) @ rest)"
    using split_records_append[of "(s # body) @ rest" before] s
    by (simp add: record_chunks_def)
  with a show ?thesis by simp
qed

text \<open>
  Claim C9, as amended. Take any document and in it a record: its record-start line, then
  any lines that start no record, then a line beginning with \<^verbatim>\<open>  stack:\<close>, then lines
  beginning with four spaces, dash, space, then lines that leave the block alone (none
  starts a record, begins with \<^verbatim>\<open>  stack:\<close> or with four spaces, dash, space, or sets a
  scalar field named \<^verbatim>\<open>stack\<close>), up to the next record start or the end of the input.
  Then \<^verbatim>\<open>parse\<close> returns the records of the lines before, this record, and the records
  of the lines after, in that order, and this record's \<^verbatim>\<open>stack\<close> field holds, in file
  order, exactly the quote-stripped values of the item lines that are not empty; an item
  whose value is empty after quote-stripping is left out.
\<close>

theorem stack_items_collected:
  assumes s: "is_record_start s" and f: "\<forall>x\<in>set flds. \<not> is_record_start x"
    and op: "startswith (rstrip l) ''  stack:''"
    and its: "\<forall>r\<in>set rs. startswith (rstrip r) ''    - ''"
    and tl: "\<forall>x\<in>set tail. keeps_stack x"
    and rest: "rest = [] \<or> is_record_start (hd rest)"
  shows "\<exists>recs_before r recs_rest.
      parse_projects_yaml before = Inr recs_before
    \<and> parse_projects_yaml rest = Inr recs_rest
    \<and> parse_projects_yaml (before @ s # flds @ l # rs @ tail @ rest) =
        Inr (recs_before @ r # recs_rest)
    \<and> r = record_of_chunk (s # flds @ l # rs @ tail)
    \<and> map_of r ''stack'' = Some (StrList (filter (\<lambda>v. v \<noteq> []) (map item_value rs)))"
proof -
  let ?body = "flds @ l # rs @ tail"
  let ?ne = "\<lambda>r::project. r \<noteq> []"
  from chunk_with_stack_block[OF s f op its tl] obtain r where
    oa: "open_after init_pstate (s # ?body) = Some r"
    and v: "map_of r ''stack'' = Some (StrList (filter (\<lambda>v. v \<noteq> []) (map item_value rs)))"
    by blast
  have rc: "record_of_chunk (s # ?body) = r" by (simp add: record_of_chunk_def oa)
  have ne: "r \<noteq> []" using v by auto
  have body: "\<forall>x\<in>set ?body. \<not> is_record_start x"
    using f op its tl stack_open_line(2)[OF op] stack_item_line(2)
    by (auto simp: keeps_stack_def)
  have ch: "record_chunks (before @ s # ?body @ rest) =
           record_chunks before @ (s # ?body) # record_chunks rest"
    by (rule record_chunks_around[OF s body rest])
  have "parse_projects_yaml (before @ s # ?body @ rest) =
      Inr (filter ?ne (map record_of_chunk (record_chunks before)) @ r #
           filter ?ne (map record_of_chunk (record_chunks rest)))"
    by (simp only: parse_chunks ch) (simp add: rc ne)
  then show ?thesis using rc v by (simp add: parse_chunks)
qed

theorem stack_items_collected_witness:
  "parse_projects_yaml
     [''- name: a'', ''- name: x'', ''  url: u'', ''  stack:'', ''    - p'', ''    - q'',
      ''  description: d'', ''- name: z''] =
   Inr [[(''name'', Str ''a'')],
        [(''name'', Str ''x''), (''url'', Str ''u''), (''stack'', StrList [''p'', ''q'']),
         (''description'', Str ''d'')],
        [(''name'', Str ''z'')]]"
proof -
  note ev = parse_projects_yaml_def init_pstate_def parse_line_def rstrip_def lstrip_def
    strip_def startswith_def endswith_def is_space_def set_scalar_def split_colon_def
    strip_quotes_def dquote_def squote_def
  have s: "is_record_start ''- name: x''"
    by (simp add: is_record_start_def rstrip_def startswith_def is_space_def)
  have f: "\<forall>x\<in>set [''  url: u'']. \<not> is_record_start x"
    by (simp add: is_record_start_def rstrip_def startswith_def is_space_def)
  have op: "startswith (rstrip ''  stack:'') ''  stack:''"
    by (simp add: rstrip_def startswith_def is_space_def)
  have its: "\<forall>r\<in>set [''    - p'', ''    - q'']. startswith (rstrip r) ''    - ''"
    by (simp add: rstrip_def startswith_def is_space_def)
  have tl: "\<forall>x\<in>set [''  description: d'']. keeps_stack x"
    by (simp add: keeps_stack_def is_record_start_def is_skipped_def split_colon_def
          strip_def rstrip_def lstrip_def startswith_def is_space_def)
  have rest: "[''- name: z''] = [] \<or> is_record_start (hd [''- name: z''])"
    by (simp add: is_record_start_def rstrip_def startswith_def is_space_def)
  have b: "parse_projects_yaml [''- name: a''] = Inr [[(''name'', Str ''a'')]]"
    by (simp add: ev)
  have z: "parse_projects_yaml [''- name: z''] = Inr [[(''name'', Str ''z'')]]"
    by (simp add: ev)
  have r: "record_of_chunk
       ([''- name: x''] @ [''  url: u''] @ [''  stack:''] @ [''    - p'', ''    - q''] @
        [''  description: d'']) =
     [(''name'', Str ''x''), (''url'', Str ''u''), (''stack'', StrList [''p'', ''q'']),
      (''description'', Str ''d'')]"
    by (simp add: record_of_chunk_def open_after_def ev)
  from stack_items_collected[OF s f op its tl rest, of "[''- name: a'']"] b z r
  show ?thesis by auto
qed

text \<open>
  The claim as first stated fails: the item line whose value is the empty quoted string is
  of the stated form, and its value is not stored; and a second \<^verbatim>\<open>  stack:\<close> line in the
  same record empties the list again.
\<close>

theorem empty_stack_item_dropped:
  "parse_projects_yaml
     [''- name: x'', ''  stack:'', ''    - a'', ''    - '' @ [CHR 0x22, CHR 0x22]] =
   Inr [[(''name'', Str ''x''), (''stack'', StrList [''a''])]]
   \<and> parse_projects_yaml [''- name: x'', ''  stack:'', ''    - a'', ''  stack:''] =
   Inr [[(''name'', Str ''x''), (''stack'', StrList [])]]"
  by (simp add: parse_projects_yaml_def init_pstate_def parse_line_def
        rstrip_def lstrip_def strip_def startswith_def endswith_def is_space_def
        set_scalar_def split_colon_def strip_quotes_def dquote_def squote_def)

section \<open>The meta tag handler\<close>

lemma usable_value: "usable_attr n a \<Longrightarrow> \<exists>s. snd a = Some s \<and> s \<noteq> []"
  by (cases "snd a") (auto simp: usable_attr_def)

lemma attrs_fold_last:
  "foldl (\<lambda>d (k, v). case v of None \<Rightarrow> d
            | Some s \<Rightarrow> if k \<noteq> [] \<and> s \<noteq> [] then d(lower k \<mapsto> s) else d) d0 as n =
     (if filter (usable_attr n) as = [] then d0 n else snd (last (filter (usable_attr n) as)))"
proof (induction as rule: rev_induct)
  case Nil
  then show ?case by simp
next
  case (snoc a as)
  obtain k v where a: "a = (k, v)" by (cases a)
  show ?case
  proof (cases "usable_attr n a")
    case True
    then obtain s where "v = Some s" "s \<noteq> []" "k \<noteq> []" "lower k = n"
      using a usable_value[OF True] by (auto simp: usable_attr_def)
    then show ?thesis using True a by simp
  next
    case False
    then have "\<not> (k \<noteq> [] \<and> truthy v \<and> lower k = n)" using a by (simp add: usable_attr_def)
    then show ?thesis using False a snoc.IH
      by (cases v) auto
  qed
qed

lemma attrs_dict_last: "attrs_dict as n = last_attr n as"
  unfolding attrs_dict_def last_attr_def
  by (simp add: attrs_fold_last Let_def)

lemma last_attr_nonempty: "last_attr n as = Some v \<Longrightarrow> v \<noteq> []"
proof -
  assume a: "last_attr n as = Some v"
  then have f: "filter (usable_attr n) as \<noteq> []"
    by (auto simp: last_attr_def Let_def split: if_splits)
  then have "last (filter (usable_attr n) as) \<in> set (filter (usable_attr n) as)"
    by (rule last_in_set)
  then have "usable_attr n (last (filter (usable_attr n) as))" by simp
  from usable_value[OF this] a f show ?thesis by (auto simp: last_attr_def Let_def)
qed

text \<open>
  Claim C5, as amended. On a \<^verbatim>\<open>meta\<close> start tag the key is the \<^verbatim>\<open>property\<close>
  attribute if it is present with a non-empty value, else the \<^verbatim>\<open>name\<close> attribute; an
  attribute with an empty name or an empty or missing value counts as absent, and of
  several attributes of one (lower-cased) name the last counts. An entry
  \<^verbatim>\<open>lower(trim(key)) -> trim(content)\<close> is stored, replacing any earlier entry for
  that key, exactly when the key and the \<^verbatim>\<open>content\<close> attribute are both present and
  non-empty before trimming; otherwise the parser is unchanged. The attribute values used
  are never empty, but the stored key or value is empty when the attribute holds only
  white space.
\<close>

theorem meta_tag_stored:
  assumes "lower tag = ''meta''"
  shows "handle_starttag p tag as =
     (case (case last_attr ''property'' as of Some k \<Rightarrow> Some k | None \<Rightarrow> last_attr ''name'' as,
            last_attr ''content'' as) of
        (Some k, Some c) \<Rightarrow> p\<lparr>meta := (meta p)(lower (strip k) \<mapsto> strip c)\<rparr>
      | _ \<Rightarrow> p)
   \<and> (\<forall>n. attrs_dict as n = last_attr n as)
   \<and> (\<forall>n v. last_attr n as = Some v \<longrightarrow> v \<noteq> [])"
proof -
  have "py_or (last_attr ''property'' as) (last_attr ''name'' as) =
      (case last_attr ''property'' as of Some k \<Rightarrow> Some k | None \<Rightarrow> last_attr ''name'' as)"
    by (auto simp: py_or_def split: option.splits dest: last_attr_nonempty)
  then show ?thesis using assms
    by (auto simp: handle_starttag_def attrs_dict_last Let_def split: option.splits
          dest: last_attr_nonempty)
qed

theorem meta_tag_stored_witness:
  "meta (handle_starttag new_parser ''META''
      [(''Property'', Some ''OG:Title ''), (''name'', Some ''x''), (''content'', Some '' Hi '')])
     ''og:title'' = Some ''Hi''"
proof -
  let ?as = "[(''Property'', Some ''OG:Title ''), (''name'', Some ''x''), (''content'', Some '' Hi '')]"
  have tag: "lower ''META'' = ''meta''"
    by (simp add: lower_def lower_char_def upper_chars_def lower_chars_def)
  have k: "last_attr ''property'' ?as = Some ''OG:Title ''"
    by (simp add: last_attr_def usable_attr_def lower_def lower_char_def upper_chars_def
          lower_chars_def)
  have c: "last_attr ''content'' ?as = Some '' Hi ''"
    by (simp add: last_attr_def usable_attr_def lower_def lower_char_def upper_chars_def
          lower_chars_def)
  have s: "lower (strip ''OG:Title '') = ''og:title''" "strip '' Hi '' = ''Hi''"
    by (simp_all add: strip_def rstrip_def lstrip_def is_space_def lower_def lower_char_def
          upper_chars_def lower_chars_def)
  from meta_tag_stored[OF tag, of new_parser ?as]
  have "handle_starttag new_parser ''META'' ?as =
          new_parser\<lparr>meta := (meta new_parser)(lower (strip ''OG:Title '') \<mapsto> strip '' Hi '')\<rparr>"
    by (simp add: k c)
  then show ?thesis by (simp add: s)
qed

text \<open>
  The claim as first stated fails: a \<^verbatim>\<open>content\<close> of one space is empty after
  trimming, yet an entry is stored, and its value is the empty string.
\<close>

theorem blank_content_stored:
  "meta (handle_starttag new_parser ''meta'' [(''name'', Some ''x''), (''content'', Some '' '')])
     ''x'' = Some []"
  by (simp add: handle_starttag_def new_parser_def attrs_dict_def lower_def lower_char_def
        upper_chars_def lower_chars_def py_or_def strip_def rstrip_def lstrip_def is_space_def
        Let_def)

section \<open>The resolver: examples, and absolute results\<close>

text \<open>
  The resolver on the references used below, whatever the two outside checks do, and the
  shape of its result: against a base with a scheme that uses a network location and a
  non-empty network location, a reference resolves to \<^verbatim>\<open>scheme://netloc...\<close> with the
  base's scheme, unless the reference carries another scheme of its own and is returned
  as it is.
\<close>

lemmas url_eval =
  py_urljoin_def join_paths_def urlparse_def urlsplit_def split_tail_def checknetloc_def
  is_ascii_def unsafe_url_bytes_def c0_control_or_space_def scheme_chars_def ascii_letters_def
  lower_def lower_char_def upper_chars_def lower_chars_def uses_params_def uses_relative_def
  uses_netloc_def urlunparse_def urlunsplit_def merge_segments_def resolve_segments_def
  split_first_def splitparams_def Let_def

lemma urljoin_examples:
  "py_urljoin lib ''https://example.com/page'' ''/img.png'' = Inr ''https://example.com/img.png''"
  "py_urljoin lib ''https://example.com/dir/page'' ''img.png'' = Inr ''https://example.com/dir/img.png''"
  "py_urljoin lib ''https://example.com/dir/page'' ''//cdn.test/a.png'' = Inr ''https://cdn.test/a.png''"
  "py_urljoin lib ''https://example.com/dir/page'' ''http://cdn.test/a.png'' = Inr ''http://cdn.test/a.png''"
  "py_urljoin lib ''https://example.com/page'' ''//['' = Inl (Exc ValueError ''Invalid IPv6 URL'')"
  "py_urljoin lib ''https://example.com/page'' ''https://cdn.test/a.png'' = Inr ''https://cdn.test/a.png''"
  by (simp_all add: url_eval)









section \<open>The card builder: precedence, completeness, image\<close>

lemma first_nonempty1: "first_nonempty [a] d = or_str a d"
  by (cases a) (auto simp: first_nonempty_def)

lemma first_nonempty2: "first_nonempty [a, b] d = or_str a (or_str b d)"
  by (cases a; cases b) (auto simp: first_nonempty_def)

lemma first_nonempty3: "first_nonempty [a, b, c] d = or_str a (or_str b (or_str c d))"
  by (cases a; cases b; cases c) (auto simp: first_nonempty_def)

lemma build_card_cases:
  "build_card uj url m tf df =
     (let cand = first_nonempty [m ''twitter:image'', m ''og:image''] [] in
      case (if cand \<noteq> [] then uj url cand else Inr []) of
        Inl e \<Rightarrow> Inl e
      | Inr img \<Rightarrow>
          Inr [(''type'', first_nonempty [m ''twitter:card'']
                  (if img \<noteq> [] then ''summary_large_image'' else ''summary'')),
               (''title'', first_nonempty [m ''twitter:title'', m ''og:title''] tf),
               (''description'',
                  first_nonempty [m ''twitter:description'', m ''og:description'', m ''description''] df),
               (''image'', img),
               (''site'', first_nonempty [m ''twitter:site''] [])])"
  by (simp add: build_card_def resolve_url_def Let_def first_nonempty1 first_nonempty2 first_nonempty3
        split: sum.split)

text \<open>
  Claim C4. Whenever the builder returns a card, its \<^verbatim>\<open>title\<close> is the first non-empty
  value among \<^verbatim>\<open>twitter:title\<close>, \<^verbatim>\<open>og:title\<close> and then the title fallback. For the
  meta map that holds \<^verbatim>\<open>twitter:title\<close> = A and \<^verbatim>\<open>og:title\<close> = B the builder returns a
  card, and its title is A.
\<close>

theorem card_title_precedence:
  "(\<forall>c. build_card uj url m tf df = Inr c \<longrightarrow>
       map_of c ''title'' = Some (first_nonempty [m ''twitter:title'', m ''og:title''] tf))
   \<and> (\<exists>c. build_card uj url [''twitter:title'' \<mapsto> ''A'', ''og:title'' \<mapsto> ''B''] tf df = Inr c
          \<and> map_of c ''title'' = Some ''A'')"
  by (auto simp: build_card_cases Let_def first_nonempty_def split: sum.splits if_splits)

theorem card_title_precedence_witness:
  "build_card (py_urljoin demo_lib) ''https://example.com/page''
      [''og:title'' \<mapsto> ''B'', ''og:image'' \<mapsto> ''https://cdn.test/a.png''] ''T'' ''D'' =
     Inr [(''type'', ''summary_large_image''), (''title'', ''B''), (''description'', ''D''),
          (''image'', ''https://cdn.test/a.png''), (''site'', [])]
   \<and> first_nonempty [None, Some ''B''] ''T'' = ''B''"
proof -
  let ?m = "[''og:title'' \<mapsto> ''B'', ''og:image'' \<mapsto> ''https://cdn.test/a.png'']"
  have b: "build_card (py_urljoin demo_lib) ''https://example.com/page'' ?m ''T'' ''D'' =
     Inr [(''type'', ''summary_large_image''), (''title'', ''B''), (''description'', ''D''),
          (''image'', ''https://cdn.test/a.png''), (''site'', [])]"
    by (simp add: build_card_def resolve_url_def urljoin_examples)
  from card_title_precedence[of "py_urljoin demo_lib" "''https://example.com/page''" ?m "''T''" "''D''"] b
  have "map_of [(''type'', ''summary_large_image''), (''title'', ''B''), (''description'', ''D''),
          (''image'', ''https://cdn.test/a.png''), (''site'', [])] ''title'' =
        Some (first_nonempty [?m ''twitter:title'', ?m ''og:title''] ''T'')"
    by blast
  then have "first_nonempty [None, Some ''B''] ''T'' = ''B''" by simp
  with b show ?thesis by simp
qed

text \<open>
  Claim C7, as amended. For every source URL, the builder given an empty meta map and the
  fallbacks Proj and Desc returns exactly the card with type summary, title Proj,
  description Desc and empty image and site. More generally it returns a card with all
  five fields whenever there is no image candidate or the resolution of the image against
  the source URL succeeds; it fails exactly when that resolution raises, with the
  resolver's exception, which the builder does not catch.
\<close>

theorem build_card_complete:
  "build_card uj url Map.empty ''Proj'' ''Desc'' =
     Inr [(''type'', ''summary''), (''title'', ''Proj''), (''description'', ''Desc''),
          (''image'', []), (''site'', [])]
   \<and> (first_nonempty [m ''twitter:image'', m ''og:image''] [] = []
        \<or> (\<exists>r. resolve_url uj url (first_nonempty [m ''twitter:image'', m ''og:image''] []) = Inr r)
      \<longrightarrow> (\<exists>c. build_card uj url m tf df = Inr c
             \<and> map fst c = [''type'', ''title'', ''description'', ''image'', ''site'']))
   \<and> (\<forall>e. build_card uj url m tf df = Inl e \<longleftrightarrow>
          first_nonempty [m ''twitter:image'', m ''og:image''] [] \<noteq> []
          \<and> resolve_url uj url (first_nonempty [m ''twitter:image'', m ''og:image''] []) = Inl e)"
  by (auto simp: build_card_cases resolve_url_def Let_def first_nonempty_def split: sum.splits)

theorem build_card_complete_witness:
  "build_card (py_urljoin demo_lib) ''https://example.com/page''
      [''twitter:image'' \<mapsto> ''https://cdn.test/a.png''] ''T'' ''D'' =
     Inr [(''type'', ''summary_large_image''), (''title'', ''T''), (''description'', ''D''),
          (''image'', ''https://cdn.test/a.png''), (''site'', [])]
   \<and> map fst [(''type'', ''summary_large_image''), (''title'', ''T''), (''description'', ''D''),
          (''image'', ''https://cdn.test/a.png''), (''site'', [])] =
       [''type'', ''title'', ''description'', ''image'', ''site'']"
proof -
  let ?m = "[''twitter:image'' \<mapsto> ''https://cdn.test/a.png'']"
  have c: "first_nonempty [?m ''twitter:image'', ?m ''og:image''] [] = ''https://cdn.test/a.png''"
    by (simp add: first_nonempty_def)
  have r: "\<exists>r. resolve_url (py_urljoin demo_lib) ''https://example.com/page''
             (first_nonempty [?m ''twitter:image'', ?m ''og:image''] []) = Inr r"
    unfolding c by (simp add: resolve_url_def urljoin_examples)
  have b: "build_card (py_urljoin demo_lib) ''https://example.com/page'' ?m ''T'' ''D'' =
     Inr [(''type'', ''summary_large_image''), (''title'', ''T''), (''description'', ''D''),
          (''image'', ''https://cdn.test/a.png''), (''site'', [])]"
    by (simp add: build_card_def resolve_url_def urljoin_examples)
  have "\<exists>c. build_card (py_urljoin demo_lib) ''https://example.com/page'' ?m ''T'' ''D'' = Inr c
          \<and> map fst c = [''type'', ''title'', ''description'', ''image'', ''site'']"
    by (rule mp[OF build_card_complete[THEN conjunct2, THEN conjunct1]]) (rule disjI2, rule r)
  with b show ?thesis by simp
qed

text \<open>
  The claim as first stated fails: the builder has a failure condition.
  \<^verbatim>\<open>urljoin\<close> raises \<^verbatim>\<open>ValueError\<close> (Invalid IPv6 URL) for the image reference
  with an unmatched bracket, and no card is returned.
\<close>

theorem build_card_raises:
  "build_card (py_urljoin demo_lib) ''https://example.com/page'' [''og:image'' \<mapsto> ''//['']
      ''Proj'' ''Desc'' =
     Inl (Exc ValueError ''Invalid IPv6 URL'')"
  by (simp add: build_card_def resolve_url_def urljoin_examples)



section \<open>The driver: records without a URL, failed fetches, and the merge\<close>

lemma strip_Nil: "strip [] = []"
  by (simp add: strip_def rstrip_def lstrip_def)

text \<open>
  Claim C3. For a record whose \<^verbatim>\<open>url\<close> is empty or missing after trimming, no URL is
  requested from the network, and the card is the pure fallback card: empty type, the
  trimmed \<^verbatim>\<open>name\<close> as title, the trimmed \<^verbatim>\<open>description\<close> as description, empty image
  and site, and no \<^verbatim>\<open>error\<close> key. The last part spells out the trimmed field: empty
  for a missing key, the stripped string for a scalar.
\<close>

theorem empty_url_fallback_card:
  assumes "get_field e p ''url'' = []"
  shows "project_card e p =
       (Inr [(''type'', []), (''title'', get_field e p ''name''),
             (''description'', get_field e p ''description''), (''image'', []), (''site'', [])], [])
   \<and> enrich_project e p =
       (Inr (AList.update ''card''
          (Card [(''type'', []), (''title'', get_field e p ''name''),
             (''description'', get_field e p ''description''), (''image'', []), (''site'', [])]) p), [])
   \<and> map_of [(''type'', []), (''title'', get_field e p ''name''),
             (''description'', get_field e p ''description''), (''image'', []), (''site'', [])]
         ''error'' = None
   \<and> (\<forall>k. get_field e p k =
          (case map_of p k of None \<Rightarrow> [] | Some (Str s) \<Rightarrow> strip s | Some v \<Rightarrow> strip (repr_of e v)))"
  using assms
  by (auto simp: project_card_def enrich_project_def fallback_card_def Let_def get_field_def
        to_str_def strip_Nil split: option.splits pyval.splits)

theorem empty_url_fallback_card_witness:
  "enrich_project demo_env
      [(''name'', Str '' Foo ''), (''url'', Str ''  ''), (''description'', Str ''d'')] =
     (Inr [(''name'', Str '' Foo ''), (''url'', Str ''  ''), (''description'', Str ''d''),
           (''card'', Card [(''type'', []), (''title'', ''Foo''), (''description'', ''d''),
                            (''image'', []), (''site'', [])])], [])"
proof -
  let ?p = "[(''name'', Str '' Foo ''), (''url'', Str ''  ''), (''description'', Str ''d'')]"
  have u: "get_field demo_env ?p ''url'' = []"
    by (simp add: get_field_def to_str_def strip_def rstrip_def lstrip_def is_space_def)
  have n: "get_field demo_env ?p ''name'' = ''Foo''" "get_field demo_env ?p ''description'' = ''d''"
    by (simp_all add: get_field_def to_str_def strip_def rstrip_def lstrip_def is_space_def)
  from empty_url_fallback_card[OF u] show ?thesis by (simp add: n)
qed

text \<open>
  What the handler of the loop does with a failed fetch. When the fetch of a record with a
  non-empty \<^verbatim>\<open>url\<close> raises \<^verbatim>\<open>URLError\<close>, \<^verbatim>\<open>HTTPError\<close> or \<^verbatim>\<open>TimeoutError\<close>,
  the output card keeps the fallback values and gains an \<^verbatim>\<open>error\<close> field with the text
  of the failure, and the loop goes on with the next record. An exception of any other
  class passes the handler and ends the batch.
\<close>

lemma fetch_failure_recorded:
  assumes url: "get_field e p ''url'' \<noteq> []"
    and fail: "fetch_html e (get_field e p ''url'') = Inl (Exc c msg)"
  shows "(c = URLError \<or> c = HTTPError \<or> c = TimeoutError \<longrightarrow>
      enrich_project e p =
       (Inr (AList.update ''card''
          (Card [(''type'', []), (''title'', get_field e p ''name''),
             (''description'', get_field e p ''description''), (''image'', []), (''site'', []),
             (''error'', ''fetch_failed: '' @ msg)]) p), [get_field e p ''url''])
      \<and> enrich_all e (p # ps) =
       (case enrich_all e ps of
          (Inl x, reqs) \<Rightarrow> (Inl x, get_field e p ''url'' # reqs)
        | (Inr rest, reqs) \<Rightarrow>
            (Inr (AList.update ''card''
               (Card [(''type'', []), (''title'', get_field e p ''name''),
                 (''description'', get_field e p ''description''), (''image'', []), (''site'', []),
                 (''error'', ''fetch_failed: '' @ msg)]) p # rest),
             get_field e p ''url'' # reqs)))
   \<and> (c \<noteq> URLError \<and> c \<noteq> HTTPError \<and> c \<noteq> TimeoutError \<longrightarrow>
      enrich_all e (p # ps) = (Inl (Exc c msg), [get_field e p ''url'']))"
proof (intro conjI impI)
  have fb: "fetch_and_build e (get_field e p ''url'') (get_field e p ''name'')
              (get_field e p ''description'') = Inl (Exc c msg)"
    by (simp add: fetch_and_build_def fail)
  {
    assume cls: "c = URLError \<or> c = HTTPError \<or> c = TimeoutError"
    have pc: "project_card e p =
       (Inr [(''type'', []), (''title'', get_field e p ''name''),
             (''description'', get_field e p ''description''), (''image'', []), (''site'', []),
             (''error'', ''fetch_failed: '' @ msg)], [get_field e p ''url''])"
      using url cls by (auto simp: project_card_def Let_def fb fallback_card_def)
    show ep: "enrich_project e p =
       (Inr (AList.update ''card''
          (Card [(''type'', []), (''title'', get_field e p ''name''),
             (''description'', get_field e p ''description''), (''image'', []), (''site'', []),
             (''error'', ''fetch_failed: '' @ msg)]) p), [get_field e p ''url''])"
      by (simp add: enrich_project_def pc)
    show "enrich_all e (p # ps) =
       (case enrich_all e ps of
          (Inl x, reqs) \<Rightarrow> (Inl x, get_field e p ''url'' # reqs)
        | (Inr rest, reqs) \<Rightarrow>
            (Inr (AList.update ''card''
               (Card [(''type'', []), (''title'', get_field e p ''name''),
                 (''description'', get_field e p ''description''), (''image'', []), (''site'', []),
                 (''error'', ''fetch_failed: '' @ msg)]) p # rest),
             get_field e p ''url'' # reqs))"
      by (simp add: ep split: prod.split sum.split)
  }
  {
    assume ncls: "c \<noteq> URLError \<and> c \<noteq> HTTPError \<and> c \<noteq> TimeoutError"
    have pc: "project_card e p = (Inl (Exc c msg), [get_field e p ''url''])"
      using url ncls by (simp add: project_card_def Let_def fb)
    show "enrich_all e (p # ps) = (Inl (Exc c msg), [get_field e p ''url''])"
      by (simp add: enrich_project_def pc)
  }
qed

lemma fetch_failure_recorded_example:
  "enrich_all demo_env
      [[(''name'', Str ''A''), (''url'', Str ''https://down.test'')], [(''name'', Str ''B'')]] =
     (Inr [[(''name'', Str ''A''), (''url'', Str ''https://down.test''),
            (''card'', Card [(''type'', []), (''title'', ''A''), (''description'', []),
                             (''image'', []), (''site'', []),
                             (''error'', ''fetch_failed: timed out'')])],
           [(''name'', Str ''B''),
            (''card'', Card [(''type'', []), (''title'', ''B''), (''description'', []),
                             (''image'', []), (''site'', [])])]],
      [''https://down.test''])
   \<and> enrich_all demo_env
      [[(''name'', Str ''A''), (''url'', Str ''https://reset.test'')], [(''name'', Str ''B'')]] =
     (Inl (Exc ConnectionResetError ''[Errno 104] Connection reset by peer''),
      [''https://reset.test''])"
proof -
  let ?p = "[(''name'', Str ''A''), (''url'', Str ''https://down.test'')]"
  let ?q = "[(''name'', Str ''A''), (''url'', Str ''https://reset.test'')]"
  have f: "get_field demo_env ?p ''url'' = ''https://down.test''"
      "get_field demo_env ?p ''name'' = ''A''" "get_field demo_env ?p ''description'' = []"
    by (simp_all add: get_field_def to_str_def strip_def rstrip_def lstrip_def is_space_def)
  have g: "get_field demo_env ?q ''url'' = ''https://reset.test''"
    by (simp add: get_field_def to_str_def strip_def rstrip_def lstrip_def is_space_def)
  have u: "get_field demo_env ?p ''url'' \<noteq> []" by (simp add: f)
  have v: "get_field demo_env ?q ''url'' \<noteq> []" by (simp add: g)
  have fail: "fetch_html demo_env (get_field demo_env ?p ''url'') = Inl (Exc TimeoutError ''timed out'')"
    unfolding f by (simp add: demo_env_def demo_fetch_def)
  have reset: "fetch_html demo_env (get_field demo_env ?q ''url'') =
      Inl (Exc ConnectionResetError ''[Errno 104] Connection reset by peer'')"
    unfolding g by (simp add: demo_env_def demo_fetch_def)
  have rest: "enrich_all demo_env [[(''name'', Str ''B'')]] =
     (Inr [[(''name'', Str ''B''),
            (''card'', Card [(''type'', []), (''title'', ''B''), (''description'', []),
                             (''image'', []), (''site'', [])])]], [])"
    by (simp add: enrich_project_def project_card_def get_field_def to_str_def fallback_card_def
          strip_def rstrip_def lstrip_def is_space_def)
  from fetch_failure_recorded[OF u fail, of "[[(''name'', Str ''B'')]]", unfolded f rest]
  have a: "enrich_all demo_env [?p, [(''name'', Str ''B'')]] =
     (Inr [[(''name'', Str ''A''), (''url'', Str ''https://down.test''),
            (''card'', Card [(''type'', []), (''title'', ''A''), (''description'', []),
                             (''image'', []), (''site'', []),
                             (''error'', ''fetch_failed: timed out'')])],
           [(''name'', Str ''B''),
            (''card'', Card [(''type'', []), (''title'', ''B''), (''description'', []),
                             (''image'', []), (''site'', [])])]],
      [''https://down.test''])"
    by (simp del: enrich_all.simps)
  from fetch_failure_recorded[OF v reset, of "[[(''name'', Str ''B'')]]", unfolded g]
  have b: "enrich_all demo_env [?q, [(''name'', Str ''B'')]] =
     (Inl (Exc ConnectionResetError ''[Errno 104] Connection reset by peer''),
      [''https://reset.test''])"
    by (simp del: enrich_all.simps)
  show ?thesis using a b by (simp del: enrich_all.simps)
qed

text \<open>
  Claim C2. A network-layer failure of the fetch is to leave the record with the fallback
  card and an \<^verbatim>\<open>error\<close> field, and the loop is to go on. The loop does so when the
  failure reaches it as \<^verbatim>\<open>URLError\<close>, \<^verbatim>\<open>HTTPError\<close> or \<^verbatim>\<open>TimeoutError\<close>: a
  connection reset while connecting is wrapped in \<^verbatim>\<open>URLError\<close>, recorded, and the second
  record is still processed. The same reset while the body is read reaches the loop as
  \<^verbatim>\<open>ConnectionResetError\<close>, which the \<^verbatim>\<open>except\<close> clause does not name: the exception
  leaves \<^verbatim>\<open>main\<close> and nothing is written, although a second record follows. The code
  fails the claim there; both runs are evaluated.
\<close>

theorem reset_during_read_ends_batch:
  "main demo_env (Some [''- name: A'', ''  url: https://refused.test'', ''- name: B'']) ''t'' =
     Inr (0, Some (''t'',
       [[(''name'', Str ''A''), (''url'', Str ''https://refused.test''),
         (''card'', Card [(''type'', []), (''title'', ''A''), (''description'', []),
            (''image'', []), (''site'', []),
            (''error'',
             ''fetch_failed: <urlopen error [Errno 104] Connection reset by peer>'')])],
        [(''name'', Str ''B''),
         (''card'', Card [(''type'', []), (''title'', ''B''), (''description'', []),
            (''image'', []), (''site'', [])])]]))
   \<and> main demo_env (Some [''- name: A'', ''  url: https://reset.test'', ''- name: B'']) ''t'' =
     Inl (Exc ConnectionResetError ''[Errno 104] Connection reset by peer'')"
  by (simp add: main_def parse_projects_yaml_def init_pstate_def parse_line_def
        rstrip_def lstrip_def strip_def startswith_def endswith_def is_space_def
        set_scalar_def split_colon_def strip_quotes_def dquote_def squote_def
        enrich_project_def project_card_def get_field_def to_str_def fetch_and_build_def
        demo_env_def demo_fetch_def fallback_card_def Let_def)

text \<open>
  A URL with no scheme is no network failure: the request constructor raises
  \<^verbatim>\<open>ValueError\<close> before anything is sent, and that exception ends the batch too.
\<close>

lemma no_scheme_url_ends_batch:
  "main demo_env (Some [''- name: A'', ''  url: example.com'', ''- name: B'']) ''t'' =
     Inl (Exc ValueError (''unknown url type: '' @ squote @ ''example.com'' @ squote))"
  by (simp add: main_def parse_projects_yaml_def init_pstate_def parse_line_def
        rstrip_def lstrip_def strip_def startswith_def endswith_def is_space_def
        set_scalar_def split_colon_def strip_quotes_def dquote_def squote_def
        enrich_project_def project_card_def get_field_def to_str_def fetch_and_build_def
        demo_env_def demo_fetch_def fallback_card_def Let_def)

lemma enrich_project_frame:
  assumes "enrich_project e p = (Inr item, reqs)"
  shows "\<exists>c. project_card e p = (Inr c, reqs) \<and> item = AList.update ''card'' (Card c) p"
  using assms by (auto simp: enrich_project_def split: prod.splits sum.splits)

text \<open>
  Claim C10. Every output record agrees with its input record on every key other than
  \<^verbatim>\<open>card\<close>, and holds the computed card under \<^verbatim>\<open>card\<close>, whether or not the input
  record had such a key; the keys keep their order, \<^verbatim>\<open>card\<close> being added at the end when
  it is new.
\<close>

theorem enriched_record_frame:
  assumes "fst (enrich_all e ps) = Inr out"
  shows "list_all2 (\<lambda>p item. \<exists>c reqs. project_card e p = (Inr c, reqs)
            \<and> map_of item = (map_of p)(''card'' \<mapsto> Card c)
            \<and> map fst item = (if ''card'' \<in> set (map fst p) then map fst p
                               else map fst p @ [''card''])) ps out"
  using assms
proof (induction ps arbitrary: out)
  case Nil
  then show ?case by simp
next
  case (Cons p ps)
  from Cons.prems obtain item reqs rest where
    ep: "enrich_project e p = (Inr item, reqs)" and
    r: "fst (enrich_all e ps) = Inr rest" and o: "out = item # rest"
    by (auto split: prod.splits sum.splits)
  from enrich_project_frame[OF ep] obtain c where
    "project_card e p = (Inr c, reqs)" "item = AList.update ''card'' (Card c) p" by blast
  then have h: "\<exists>c reqs. project_card e p = (Inr c, reqs)
            \<and> map_of item = (map_of p)(''card'' \<mapsto> Card c)
            \<and> map fst item = (if ''card'' \<in> set (map fst p) then map fst p
                               else map fst p @ [''card''])"
    by (auto simp: AList.update_conv' AList.update_keys)
  show ?case unfolding o
    by (intro iffD2[OF list_all2_Cons] conjI) (rule h, rule Cons.IH[OF r])
qed

theorem enriched_record_frame_witness:
  "fst (enrich_all demo_env [[(''card'', Str ''old''), (''name'', Str ''X'')]]) =
     Inr [[(''card'', Card [(''type'', []), (''title'', ''X''), (''description'', []),
                            (''image'', []), (''site'', [])]), (''name'', Str ''X'')]]
   \<and> (\<exists>c. map_of [(''card'', Card [(''type'', []), (''title'', ''X''), (''description'', []),
                            (''image'', []), (''site'', [])]), (''name'', Str ''X'')] =
            (map_of [(''card'', Str ''old''), (''name'', Str ''X'')])(''card'' \<mapsto> Card c))"
proof -
  have b: "fst (enrich_all demo_env [[(''card'', Str ''old''), (''name'', Str ''X'')]]) =
     Inr [[(''card'', Card [(''type'', []), (''title'', ''X''), (''description'', []),
                            (''image'', []), (''site'', [])]), (''name'', Str ''X'')]]"
    by (simp add: enrich_project_def project_card_def get_field_def to_str_def fallback_card_def
          strip_def rstrip_def lstrip_def is_space_def)
  from enriched_record_frame[OF b] show ?thesis
    by (simp only: b list_all2_Cons list_all2_Nil simp_thms) blast
qed

text \<open>
  The end-to-end example of the specification: one record and a page whose only meta tag
  is \<^verbatim>\<open>og:title\<close> = Hi; the card's title is Hi, not the text of the title element.
\<close>

lemma end_to_end_example:
  "main demo_env (Some [''- name: X'', ''  url: https://x.test'', ''  description: d'']) ''t'' =
    Inr (0, Some (''t'', [[(''name'', Str ''X''), (''url'', Str ''https://x.test''), (''description'', Str ''d''),
       (''card'', Card [(''type'', ''summary''), (''title'', ''Hi''), (''description'', ''d''), (''image'', []), (''site'', [])])]]))"
  by (simp add: main_def parse_projects_yaml_def init_pstate_def parse_line_def
        rstrip_def lstrip_def strip_def startswith_def endswith_def is_space_def
        set_scalar_def split_colon_def strip_quotes_def dquote_def squote_def
        enrich_project_def project_card_def get_field_def to_str_def fetch_and_build_def
        demo_env_def demo_fetch_def demo_events_def demo_html_def fallback_card_def Let_def
        feed_def new_parser_def handle_starttag_def handle_endtag_def handle_data_def
        attrs_dict_def py_or_def lower_def lower_char_def upper_chars_def lower_chars_def
        build_card_def resolve_url_def)

end
